theory Spec2Isabelle
  imports Complex_Main "HOL-Library.AList" "HOL-Library.Log_Nat"
begin

section \<open>Strings\<close>

text \<open>
  A JavaScript string is modelled as a \<^typ>\<open>string\<close>, one \<^typ>\<open>char\<close> per UTF-16 code
  unit, restricted to the code units below 256 (ISO-8859-1, the encoding
  \<open>parseSefazHtml\<close> reads its document with). A value that may be \<open>null\<close> or
  \<open>undefined\<close> is a \<^typ>\<open>string option\<close>. The character classes of the regular
  expressions and of the built-in string methods are written out as tables.
\<close>

text \<open>The class \<open>[0-9]\<close>.\<close>

definition isDigit :: "char \<Rightarrow> bool" where
  "isDigit c = (c \<in> set ''0123456789'')"

text \<open>The class \<open>[a-z0-9]\<close>.\<close>

definition isLowerAlnum :: "char \<Rightarrow> bool" where
  "isLowerAlnum c = (c \<in> set ''abcdefghijklmnopqrstuvwxyz0123456789'')"

text \<open>White space as \<open>String.prototype.trim\<close> and \<open>parseFloat\<close> see it: tab, line feed,
  vertical tab, form feed, carriage return, space and no-break space.\<close>

definition isWhiteSpace :: "char \<Rightarrow> bool" where
  "isWhiteSpace c = (c \<in> set [CHR 0x09, CHR 0x0A, CHR 0x0B, CHR 0x0C, CHR 0x0D, CHR 0x20, CHR 0xA0])"

definition trimStart :: "string \<Rightarrow> string" where
  "trimStart s = dropWhile isWhiteSpace s"

definition trim :: "string \<Rightarrow> string" where
  "trim s = rev (dropWhile isWhiteSpace (rev (dropWhile isWhiteSpace s)))"

text \<open>\<open>String.prototype.toLowerCase\<close> on ISO-8859-1: \<open>A-Z\<close> and the capital letters
  \<open>0xC0-0xDE\<close> (without the multiplication sign \<open>0xD7\<close>) move to their small letters.\<close>

definition upperLetters :: "char list" where
  "upperLetters = ''ABCDEFGHIJKLMNOPQRSTUVWXYZ'' @
     [CHR 0xC0, CHR 0xC1, CHR 0xC2, CHR 0xC3, CHR 0xC4, CHR 0xC5, CHR 0xC6, CHR 0xC7,
      CHR 0xC8, CHR 0xC9, CHR 0xCA, CHR 0xCB, CHR 0xCC, CHR 0xCD, CHR 0xCE, CHR 0xCF,
      CHR 0xD0, CHR 0xD1, CHR 0xD2, CHR 0xD3, CHR 0xD4, CHR 0xD5, CHR 0xD6,
      CHR 0xD8, CHR 0xD9, CHR 0xDA, CHR 0xDB, CHR 0xDC, CHR 0xDD, CHR 0xDE]"

definition lowerLetters :: "char list" where
  "lowerLetters = ''abcdefghijklmnopqrstuvwxyz'' @
     [CHR 0xE0, CHR 0xE1, CHR 0xE2, CHR 0xE3, CHR 0xE4, CHR 0xE5, CHR 0xE6, CHR 0xE7,
      CHR 0xE8, CHR 0xE9, CHR 0xEA, CHR 0xEB, CHR 0xEC, CHR 0xED, CHR 0xEE, CHR 0xEF,
      CHR 0xF0, CHR 0xF1, CHR 0xF2, CHR 0xF3, CHR 0xF4, CHR 0xF5, CHR 0xF6,
      CHR 0xF8, CHR 0xF9, CHR 0xFA, CHR 0xFB, CHR 0xFC, CHR 0xFD, CHR 0xFE]"

definition toLowerCase_char :: "char \<Rightarrow> char" where
  "toLowerCase_char c =
     (case map_of (zip upperLetters lowerLetters) c of None \<Rightarrow> c | Some l \<Rightarrow> l)"

definition toLowerCase :: "string \<Rightarrow> string" where
  "toLowerCase s = map toLowerCase_char s"

text \<open>\<open>normalize("NFD")\<close> followed by the removal of the combining marks U+0300 to U+036F: on ISO-8859-1
  the canonical decomposition splits an accented letter into its base letter and
  combining marks, and the replacement drops the marks. The letters without a canonical
  decomposition (such as \<open>0xC6\<close>, \<open>0xD8\<close>, \<open>0xDF\<close>) stay.\<close>

definition stripAccent_char :: "char \<Rightarrow> char" where
  "stripAccent_char c =
     (if c \<in> set [CHR 0xC0, CHR 0xC1, CHR 0xC2, CHR 0xC3, CHR 0xC4, CHR 0xC5] then CHR ''A''
      else if c = CHR 0xC7 then CHR ''C''
      else if c \<in> set [CHR 0xC8, CHR 0xC9, CHR 0xCA, CHR 0xCB] then CHR ''E''
      else if c \<in> set [CHR 0xCC, CHR 0xCD, CHR 0xCE, CHR 0xCF] then CHR ''I''
      else if c = CHR 0xD1 then CHR ''N''
      else if c \<in> set [CHR 0xD2, CHR 0xD3, CHR 0xD4, CHR 0xD5, CHR 0xD6] then CHR ''O''
      else if c \<in> set [CHR 0xD9, CHR 0xDA, CHR 0xDB, CHR 0xDC] then CHR ''U''
      else if c = CHR 0xDD then CHR ''Y''
      else if c \<in> set [CHR 0xE0, CHR 0xE1, CHR 0xE2, CHR 0xE3, CHR 0xE4, CHR 0xE5] then CHR ''a''
      else if c = CHR 0xE7 then CHR ''c''
      else if c \<in> set [CHR 0xE8, CHR 0xE9, CHR 0xEA, CHR 0xEB] then CHR ''e''
      else if c \<in> set [CHR 0xEC, CHR 0xED, CHR 0xEE, CHR 0xEF] then CHR ''i''
      else if c = CHR 0xF1 then CHR ''n''
      else if c \<in> set [CHR 0xF2, CHR 0xF3, CHR 0xF4, CHR 0xF5, CHR 0xF6] then CHR ''o''
      else if c \<in> set [CHR 0xF9, CHR 0xFA, CHR 0xFB, CHR 0xFC] then CHR ''u''
      else if c \<in> set [CHR 0xFD, CHR 0xFF] then CHR ''y''
      else c)"

text \<open>\<open>s.startsWith(p)\<close> and \<open>s.includes(p)\<close>.\<close>

fun startsWith :: "string \<Rightarrow> string \<Rightarrow> bool" where
  "startsWith s [] = True"
| "startsWith [] (p # ps) = False"
| "startsWith (c # cs) (p # ps) = (c = p \<and> startsWith cs ps)"

fun js_includes :: "string \<Rightarrow> string \<Rightarrow> bool" where
  "js_includes [] p = (p = [])"
| "js_includes (c # cs) p = (startsWith (c # cs) p \<or> js_includes cs p)"

text \<open>\<open>s.replace(p, r)\<close> with a string pattern replaces the first occurrence only (the
  replacements used in the source contain no \<open>$\<close> pattern).\<close>

fun replace_first :: "string \<Rightarrow> string \<Rightarrow> string \<Rightarrow> string" where
  "replace_first [] p r = (if p = [] then r else [])"
| "replace_first (c # cs) p r =
     (if startsWith (c # cs) p then r @ drop (length p) (c # cs)
      else c # replace_first cs p r)"

text \<open>\<open>s.substring(a, b)\<close>: the two indices are swapped when \<open>a > b\<close> and clamped to the
  length.\<close>

definition substring :: "string \<Rightarrow> nat \<Rightarrow> nat \<Rightarrow> string" where
  "substring s a b = take (max a b - min a b) (drop (min a b) s)"

section \<open>Key and header normalisation (types.ts)\<close>

text \<open>\<open>normalizeKey\<close>: a falsy key (\<open>null\<close>, \<open>undefined\<close> or the empty string) gives the
  empty string; otherwise \<open>key.replace(/[^0-9]/g, '')\<close>.\<close>

definition normalizeKey :: "string option \<Rightarrow> string" where
  "normalizeKey key =
     (case key of
        None \<Rightarrow> ''''
      | Some k \<Rightarrow> if k = '''' then '''' else filter isDigit k)"

definition extractDateFromKey :: "string option \<Rightarrow> string" where
  "extractDateFromKey key =
     (let cleanKey = normalizeKey key
      in if length cleanKey \<noteq> 44 then ''''
         else (let yy = substring cleanKey 2 4;
                   mm = substring cleanKey 4 6
               in mm @ ''/20'' @ yy))"

text \<open>\<open>replace(/[^a-z0-9]+/g, "_")\<close>: every maximal run of characters outside
  \<open>[a-z0-9]\<close> becomes one underscore. The flag says that the previous character already
  belonged to such a run.\<close>

fun collapseRuns :: "bool \<Rightarrow> string \<Rightarrow> string" where
  "collapseRuns inRun [] = []"
| "collapseRuns inRun (c # cs) =
     (if isLowerAlnum c then c # collapseRuns False cs
      else if inRun then collapseRuns True cs
      else CHR ''_'' # collapseRuns True cs)"

definition normalizeHeader :: "string option \<Rightarrow> string" where
  "normalizeHeader text =
     (case text of
        None \<Rightarrow> ''''
      | Some t \<Rightarrow>
          if t = '''' then ''''
          else collapseRuns False (map stripAccent_char (toLowerCase (trim t))))"

text \<open>The number of digit characters of a string, counted one character at a time.\<close>

fun digitCount :: "string \<Rightarrow> nat" where
  "digitCount [] = 0"
| "digitCount (c # cs) = (if c \<in> set ''0123456789'' then Suc (digitCount cs) else digitCount cs)"

section \<open>Numbers\<close>

text \<open>
  A JavaScript number is an IEEE 754 double: \<open>NaN\<close>, an infinity or a finite value. A
  finite double is kept as the rational it denotes (\<open>Finite q\<close>); the sign of zero is not
  part of the model.
\<close>

datatype number = NaN | PosInfinity | NegInfinity | Finite rat

text \<open>
  The Number value of a mathematical value, as \<open>parseFloat\<close> and numeric literals take it:
  the double nearest to the value, a tie going to the double with the even significand.
  For \<open>a > 0\<close>, \<open>floorLog2 a\<close> is the exponent \<open>e\<close> with \<open>2^e \<le> a < 2^(e+1)\<close>, found from the
  bit lengths of numerator and denominator. A double has 53 significant bits, so the
  doubles near \<open>a\<close> are the multiples of \<open>2^(e-52)\<close>; below the smallest normal exponent
  \<open>-1022\<close> they are the multiples of \<open>2^(-1074)\<close> (subnormal numbers, down to zero). A
  rounded value of \<open>2^1024\<close> or more is an infinity.
\<close>

definition floorLog2 :: "rat \<Rightarrow> int" where
  "floorLog2 a =
     (let k = bitlen (fst (quotient_of a)) - bitlen (snd (quotient_of a))
      in if 2 powi k \<le> a then k else k - 1)"

definition roundHalfEven :: "rat \<Rightarrow> int" where
  "roundHalfEven y =
     (let n = \<lfloor>y\<rfloor>; f = y - of_int n
      in if f < 1 / 2 then n
         else if 1 / 2 < f then n + 1
         else if even n then n else n + 1)"

definition toNumber :: "rat \<Rightarrow> number" where
  "toNumber q =
     (if q = 0 then Finite 0
      else
        (let a = \<bar>q\<bar>;
             p = max (floorLog2 a) (- 1022) - 52;
             v = of_int (roundHalfEven (a / 2 powi p)) * 2 powi p
         in if 2 powi 1024 \<le> v then (if q < 0 then NegInfinity else PosInfinity)
            else Finite (if q < 0 then - v else v)))"

definition digitVal :: "char \<Rightarrow> int" where
  "digitVal c =
     (case map_of (zip ''0123456789'' [0, 1, 2, 3, 4, 5, 6, 7, 8, 9]) c of
        None \<Rightarrow> 0 | Some d \<Rightarrow> d)"

definition digitsValue :: "string \<Rightarrow> int" where
  "digitsValue ds = foldl (\<lambda>n c. 10 * n + digitVal c) 0 ds"

definition scale10 :: "rat \<Rightarrow> int \<Rightarrow> rat" where
  "scale10 m e = (if 0 \<le> e then m * 10 ^ nat e else m / 10 ^ nat (- e))"

text \<open>The optional exponent part \<open>[eE][+-]?[0-9]+\<close> at the start of a string; no exponent
  part counts as exponent zero.\<close>

definition parseExponent :: "string \<Rightarrow> int" where
  "parseExponent s =
     (case s of
        [] \<Rightarrow> 0
      | e # r \<Rightarrow>
          if e = CHR ''e'' \<or> e = CHR ''E'' then
            (case r of
               [] \<Rightarrow> 0
             | g # t \<Rightarrow>
                 if g = CHR ''-'' then - digitsValue (takeWhile isDigit t)
                 else if g = CHR ''+'' then digitsValue (takeWhile isDigit t)
                 else digitsValue (takeWhile isDigit r))
          else 0)"

text \<open>The longest prefix that is an unsigned decimal literal
  (\<open>digits\<close>, \<open>digits.\<close>, \<open>digits.digits\<close> or \<open>.digits\<close>, each with an optional exponent),
  with its exact mathematical value; \<open>None\<close> when no prefix is one.\<close>

definition parseUnsigned :: "string \<Rightarrow> rat option" where
  "parseUnsigned s =
     (let ip = takeWhile isDigit s;
          r1 = dropWhile isDigit s;
          hasDot = (r1 \<noteq> [] \<and> hd r1 = CHR ''.'');
          fp = (if hasDot then takeWhile isDigit (tl r1) else []);
          r2 = (if hasDot then dropWhile isDigit (tl r1) else r1)
      in if ip = [] \<and> fp = [] then None
         else Some (scale10 (of_int (digitsValue (ip @ fp)))
                            (parseExponent r2 - int (length fp))))"

definition parseFloat :: "string \<Rightarrow> number" where
  "parseFloat s =
     (let t = trimStart s;
          neg = (t \<noteq> [] \<and> hd t = CHR ''-'');
          u = (if t \<noteq> [] \<and> (hd t = CHR ''-'' \<or> hd t = CHR ''+'') then tl t else t)
      in if startsWith u ''Infinity'' then (if neg then NegInfinity else PosInfinity)
         else (case parseUnsigned u of
                 None \<Rightarrow> NaN
               | Some q \<Rightarrow> toNumber (if neg then - q else q)))"

section \<open>Data model (types.ts)\<close>

text \<open>
  A cell of the grid that \<open>XLSX.utils.sheet_to_json\<close> returns with \<open>header: 1\<close> and
  \<open>raw: false\<close> is a formatted string, or is absent (a hole of the sparse row array):
  \<open>None\<close>. A row is the list of its cells.
\<close>

type_synonym cell = "string option"
type_synonym row = "cell list"

record AccountingRecord =
  acc_id :: string
  acc_numero :: "string option"
  acc_dataEmissao :: string
  acc_valor :: number
  acc_chave :: string
  acc_sourceRow :: row

record SefazRecord =
  sefaz_id :: string
  sefaz_chave :: string
  sefaz_numero :: string
  sefaz_serie :: string
  sefaz_situacao :: string
  sefaz_emitente :: string
  sefaz_data :: string
  sefaz_sourceRow :: "string list"

datatype MatchStatus = MATCHED | MISSING_IN_ACCOUNTING | MISSING_IN_SEFAZ | CANCELLED

record ComparisonResult =
  res_id :: string
  res_chave :: string
  res_numero :: "string option"
  res_serie :: string
  res_data :: string
  res_valor :: number
  res_situacaoSefaz :: string
  res_status :: MatchStatus
  res_sefazRecord :: "SefazRecord option"
  res_accountingRecord :: "AccountingRecord option"

text \<open>The errors the three entry points end with: the two \<open>Error\<close>s that
  \<open>parseAccountingFile\<close> throws, the \<open>TypeError\<close> of a method call on \<open>undefined\<close>, the
  \<open>Error\<close> of \<open>parseSefazHtml\<close>, and the message \<open>handleCompare\<close> sets when a dataset is
  missing.\<close>

datatype error = EmptyFile | MissingKeyColumn | TypeError | TableNotFound | FilesNotLoaded

section \<open>The ledger extractor (parseAccountingFile)\<close>

text \<open>\<open>row[i]\<close>: \<open>undefined\<close> for a hole and beyond the end of the row.\<close>

definition row_at :: "row \<Rightarrow> nat \<Rightarrow> cell" where
  "row_at r i = (if i < length r then r ! i else None)"

text \<open>\<open>headers.findIndex(p)\<close> for the four predicates of the source, each of which ends in
  a call \<open>h.includes(...)\<close>: \<open>findIndex\<close> visits the holes of the array with
  \<open>h = undefined\<close>, where that call throws a \<open>TypeError\<close>. \<open>None\<close> is the result \<open>-1\<close>.\<close>

fun findIndex_from :: "nat \<Rightarrow> (string \<Rightarrow> bool) \<Rightarrow> string option list \<Rightarrow> error + nat option" where
  "findIndex_from i p [] = Inr None"
| "findIndex_from i p (None # hs) = Inl TypeError"
| "findIndex_from i p (Some h # hs) = (if p h then Inr (Some i) else findIndex_from (Suc i) p hs)"

definition findIndex :: "(string \<Rightarrow> bool) \<Rightarrow> string option list \<Rightarrow> error + nat option" where
  "findIndex p hs = findIndex_from 0 p hs"

definition isChaveHeader :: "string \<Rightarrow> bool" where
  "isChaveHeader h = (js_includes h ''chave'' \<or> js_includes h ''chavenfe'')"

definition isNumeroHeader :: "string \<Rightarrow> bool" where
  "isNumeroHeader h = (h = ''numero'' \<or> h = ''numero_nota'' \<or> js_includes h ''nota'')"

definition isValorHeader :: "string \<Rightarrow> bool" where
  "isValorHeader h = (js_includes h ''valor'' \<or> js_includes h ''contabil'')"

definition isDataHeader :: "string \<Rightarrow> bool" where
  "isDataHeader h = (js_includes h ''emissao'' \<or> js_includes h ''data'')"

text \<open>The \<open>valor\<close> field: with \<open>c = row[idxValor]\<close>, the source computes
  \<open>parseFloat(c?.toString().replace('R$', '').replace(/\./g, '').replace(',', '.') || '0')\<close>
  when the column was found, and \<open>0\<close> otherwise.\<close>

definition stripCurrency :: "string \<Rightarrow> string" where
  "stripCurrency v =
     replace_first (filter (\<lambda>c. c \<noteq> CHR ''.'') (replace_first v ''R$'' '''')) '','' ''.''"

definition parseValor :: "nat option \<Rightarrow> row \<Rightarrow> number" where
  "parseValor idxValor r =
     (case idxValor of
        None \<Rightarrow> Finite 0
      | Some i \<Rightarrow>
          parseFloat (case row_at r i of
                        None \<Rightarrow> ''0''
                      | Some v \<Rightarrow> if stripCurrency v = '''' then ''0'' else stripCurrency v))"

text \<open>The body of the row loop: \<open>None\<close> is a \<open>continue\<close>, \<open>Some\<close> the record pushed.\<close>

definition accountingRow ::
  "nat \<Rightarrow> nat option \<Rightarrow> nat option \<Rightarrow> nat option \<Rightarrow> row \<Rightarrow> AccountingRecord option" where
  "accountingRow idxChave idxNumero idxValor idxData r =
     (if r = [] then None
      else (case row_at r idxChave of
              None \<Rightarrow> None
            | Some rawKey \<Rightarrow>
                if rawKey = '''' then None
                else
                  (let chaveStr = normalizeKey (Some rawKey);
                       dataCell = (case idxData of None \<Rightarrow> Some '''' | Some i \<Rightarrow> row_at r i);
                       dataEmissao =
                         (case dataCell of
                            None \<Rightarrow> extractDateFromKey (Some chaveStr)
                          | Some d \<Rightarrow> if d = '''' then extractDateFromKey (Some chaveStr) else d)
                   in Some \<lparr> acc_id = chaveStr,
                             acc_numero = (case idxNumero of None \<Rightarrow> Some '''' | Some i \<Rightarrow> row_at r i),
                             acc_dataEmissao = dataEmissao,
                             acc_valor = parseValor idxValor r,
                             acc_chave = chaveStr,
                             acc_sourceRow = r \<rparr>)))"

fun accountingRows ::
  "nat \<Rightarrow> nat option \<Rightarrow> nat option \<Rightarrow> nat option \<Rightarrow> row list \<Rightarrow> AccountingRecord list" where
  "accountingRows ic inu iv idt [] = []"
| "accountingRows ic inu iv idt (r # rs) =
     (case accountingRow ic inu iv idt r of
        None \<Rightarrow> accountingRows ic inu iv idt rs
      | Some record \<Rightarrow> record # accountingRows ic inu iv idt rs)"

text \<open>\<open>parseAccountingFile\<close> from the grid \<open>jsonData\<close> on: the four \<open>findIndex\<close> calls run
  before the test of \<open>idxChave\<close>, so a \<open>TypeError\<close> of any of them comes first.\<close>

definition parseAccountingFile :: "row list \<Rightarrow> error + AccountingRecord list" where
  "parseAccountingFile jsonData =
     (case jsonData of
        [] \<Rightarrow> Inl EmptyFile
      | header # body \<Rightarrow>
          (let headers = map (map_option (\<lambda>h. normalizeHeader (Some h))) header
           in case findIndex isChaveHeader headers of
                Inl e \<Rightarrow> Inl e
              | Inr idxChave \<Rightarrow>
            (case findIndex isNumeroHeader headers of
                Inl e \<Rightarrow> Inl e
              | Inr idxNumero \<Rightarrow>
            (case findIndex isValorHeader headers of
                Inl e \<Rightarrow> Inl e
              | Inr idxValor \<Rightarrow>
            (case findIndex isDataHeader headers of
                Inl e \<Rightarrow> Inl e
              | Inr idxData \<Rightarrow>
            (case idxChave of
                None \<Rightarrow> Inl MissingKeyColumn
              | Some ic \<Rightarrow> Inr (accountingRows ic idxNumero idxValor idxData body)))))))"

section \<open>The authority extractor (parseSefazHtml)\<close>

text \<open>
  The parsed document is the list of its \<open>table\<close> elements in document order
  (\<open>doc.querySelectorAll("table")\<close>), a table the list of its \<open>rows\<close>, a row the list of
  its \<open>cells\<close>, and a cell its two text properties.
\<close>

record html_cell =
  textContent :: string
  innerText :: string

type_synonym html_row = "html_cell list"
type_synonym html_table = "html_row list"

text \<open>\<open>cells[i]\<close>: \<open>undefined\<close> beyond the end of the row.\<close>

definition cell_at :: "html_row \<Rightarrow> nat \<Rightarrow> html_cell option" where
  "cell_at cells i = (if i < length cells then Some (cells ! i) else None)"

definition requiredHeaders :: "string list" where
  "requiredHeaders = [''chave'', ''situacao'']"

definition hasAll :: "string list \<Rightarrow> bool" where
  "hasAll cellTexts =
     list_all (\<lambda>req. list_ex (\<lambda>txt. js_includes txt req) cellTexts) requiredHeaders"

text \<open>\<open>cellTexts.forEach((txt, idx) => ...)\<close>: every cell assigns at most one role, and a
  later cell with the same role overwrites the index of an earlier one.\<close>

fun buildHeaderMap :: "nat \<Rightarrow> string list \<Rightarrow> (string \<rightharpoonup> nat) \<Rightarrow> (string \<rightharpoonup> nat)" where
  "buildHeaderMap idx [] headerMap = headerMap"
| "buildHeaderMap idx (txt # txts) headerMap =
     buildHeaderMap (Suc idx) txts
       (if js_includes txt ''chave'' then headerMap(''chave'' \<mapsto> idx)
        else if js_includes txt ''situacao'' then headerMap(''situacao'' \<mapsto> idx)
        else if js_includes txt ''numero'' \<or> txt = ''nota'' then headerMap(''numero'' \<mapsto> idx)
        else if js_includes txt ''serie'' then headerMap(''serie'' \<mapsto> idx)
        else if js_includes txt ''emitente'' \<and> \<not> js_includes txt ''cnpj''
          then headerMap(''emitente'' \<mapsto> idx)
        else if js_includes txt ''data'' \<or> js_includes txt ''emissao''
          then headerMap(''data'' \<mapsto> idx)
        else headerMap)"

text \<open>The inner loop over the first rows of one table (the caller passes
  \<open>take 5 rows\<close>), and the outer loop over the tables.\<close>

fun findHeaderRow :: "html_row list \<Rightarrow> (string \<rightharpoonup> nat) option" where
  "findHeaderRow [] = None"
| "findHeaderRow (r # rs) =
     (let cellTexts = map (\<lambda>c. normalizeHeader (Some (textContent c))) r
      in if hasAll cellTexts then Some (buildHeaderMap 0 cellTexts Map.empty)
         else findHeaderRow rs)"

fun findTargetTable :: "html_table list \<Rightarrow> (html_table \<times> (string \<rightharpoonup> nat)) option" where
  "findTargetTable [] = None"
| "findTargetTable (t # ts) =
     (case findHeaderRow (take 5 t) of
        Some headerMap \<Rightarrow> Some (t, headerMap)
      | None \<Rightarrow> findTargetTable ts)"

definition getVal :: "(string \<rightharpoonup> nat) \<Rightarrow> html_row \<Rightarrow> string \<Rightarrow> string" where
  "getVal headerMap cells key =
     (case headerMap key of
        None \<Rightarrow> ''''
      | Some idx \<Rightarrow> (case cell_at cells idx of None \<Rightarrow> '''' | Some c \<Rightarrow> trim (textContent c)))"

text \<open>The test that skips the header row:
  \<open>cells[headerMap['chave']]?.textContent?.toLowerCase().includes('chave')\<close>.\<close>

definition isHeaderRow :: "(string \<rightharpoonup> nat) \<Rightarrow> html_row \<Rightarrow> bool" where
  "isHeaderRow headerMap cells =
     (case headerMap ''chave'' of
        None \<Rightarrow> False
      | Some idx \<Rightarrow>
          (case cell_at cells idx of
             None \<Rightarrow> False
           | Some c \<Rightarrow> js_includes (toLowerCase (textContent c)) ''chave''))"

text \<open>The body of the row loop: \<open>None\<close> when the row pushes no record.\<close>

definition sefazRow :: "(string \<rightharpoonup> nat) \<Rightarrow> html_row \<Rightarrow> SefazRecord option" where
  "sefazRow headerMap cells =
     (if length cells < 3 then None
      else if isHeaderRow headerMap cells then None
      else
        (let chave = normalizeKey (Some (getVal headerMap cells ''chave''));
             data0 = getVal headerMap cells ''data'';
             data = (if data0 = '''' then extractDateFromKey (Some chave) else data0)
         in if chave \<noteq> '''' \<and> length chave > 20
            then Some \<lparr> sefaz_id = chave,
                        sefaz_chave = chave,
                        sefaz_numero = getVal headerMap cells ''numero'',
                        sefaz_serie = getVal headerMap cells ''serie'',
                        sefaz_situacao = getVal headerMap cells ''situacao'',
                        sefaz_emitente = getVal headerMap cells ''emitente'',
                        sefaz_data = data,
                        sefaz_sourceRow = map innerText cells \<rparr>
            else None))"

fun sefazRows :: "(string \<rightharpoonup> nat) \<Rightarrow> html_row list \<Rightarrow> SefazRecord list" where
  "sefazRows headerMap [] = []"
| "sefazRows headerMap (cells # rows) =
     (case sefazRow headerMap cells of
        None \<Rightarrow> sefazRows headerMap rows
      | Some record \<Rightarrow> record # sefazRows headerMap rows)"

definition parseSefazHtml :: "html_table list \<Rightarrow> error + SefazRecord list" where
  "parseSefazHtml tables =
     (case findTargetTable tables of
        None \<Rightarrow> Inl TableNotFound
      | Some (targetTable, headerMap) \<Rightarrow> Inr (sefazRows headerMap targetTable))"

section \<open>Reconciliation (handleCompare)\<close>

text \<open>
  \<open>mapAccounting\<close> is a JavaScript \<open>Map\<close>: an association list in insertion order, where
  \<open>set\<close> on a key already present replaces the value in place (\<open>AList.update\<close>),
  \<open>get\<close> is \<^const>\<open>map_of\<close> and \<open>delete\<close> is \<open>AList.delete\<close>.
\<close>

type_synonym accounting_map = "(string \<times> AccountingRecord) list"

definition buildMapAccounting :: "AccountingRecord list \<Rightarrow> accounting_map" where
  "buildMapAccounting accountingData =
     foldl (\<lambda>m item. if acc_chave item \<noteq> '''' then AList.update (acc_chave item) item m else m)
           [] accountingData"

definition isCancelada :: "SefazRecord \<Rightarrow> bool" where
  "isCancelada sefaz = js_includes (toLowerCase (sefaz_situacao sefaz)) ''cancelada''"

text \<open>The status of an authority record, given the result \<open>match\<close> of the lookup.\<close>

definition sefazStatus :: "AccountingRecord option \<Rightarrow> SefazRecord \<Rightarrow> MatchStatus" where
  "sefazStatus match sefaz =
     (if isCancelada sefaz then CANCELLED
      else if match \<noteq> None then MATCHED
      else MISSING_IN_ACCOUNTING)"

text \<open>The object pushed for an authority record, the same in both versions of
  \<open>handleCompare\<close>.\<close>

definition sefazResult :: "AccountingRecord option \<Rightarrow> SefazRecord \<Rightarrow> ComparisonResult" where
  "sefazResult match sefaz =
     \<lparr> res_id = sefaz_chave sefaz,
       res_chave = sefaz_chave sefaz,
       res_numero = Some (sefaz_numero sefaz),
       res_serie = sefaz_serie sefaz,
       res_data = (if sefaz_data sefaz \<noteq> '''' then sefaz_data sefaz
                   else extractDateFromKey (Some (sefaz_chave sefaz))),
       res_valor = (case match of None \<Rightarrow> Finite 0 | Some a \<Rightarrow> acc_valor a),
       res_situacaoSefaz = sefaz_situacao sefaz,
       res_status = sefazStatus match sefaz,
       res_sefazRecord = Some sefaz,
       res_accountingRecord = match \<rparr>"

text \<open>\<open>handleCompare\<close> of \<open>src/App.tsx\<close>: the map is only read, and the result list holds
  the authority records alone.\<close>

definition handleCompare ::
  "AccountingRecord list \<Rightarrow> SefazRecord list \<Rightarrow> error + ComparisonResult list" where
  "handleCompare accountingData sefazData =
     (if accountingData = [] \<or> sefazData = [] then Inl FilesNotLoaded
      else
        (let mapAccounting = buildMapAccounting accountingData
         in Inr (map (\<lambda>sefaz. sefazResult (map_of mapAccounting (sefaz_chave sefaz)) sefaz)
                     sefazData)))"

text \<open>\<open>handleCompare\<close> of \<open>src/unnamed/part_002\<close>: the pass over the authority records
  deletes a key from the map in the \<open>MATCHED\<close> branch, and the entries left in the map are
  pushed afterwards. The pass returns the map it ends with and the results it pushed.\<close>

fun sefazPass_002 :: "accounting_map \<Rightarrow> SefazRecord list \<Rightarrow> accounting_map \<times> ComparisonResult list" where
  "sefazPass_002 m [] = (m, [])"
| "sefazPass_002 m (sefaz # rest) =
     (let match = map_of m (sefaz_chave sefaz);
          m' = (if \<not> isCancelada sefaz \<and> match \<noteq> None
                then AList.delete (sefaz_chave sefaz) m else m);
          (mEnd, results) = sefazPass_002 m' rest
      in (mEnd, sefazResult match sefaz # results))"

text \<open>The fixed status text \<open>'N\~ao encontrada no arquivo'\<close>; its second letter is the code
  unit \<open>0xE3\<close>.\<close>

definition naoEncontrada :: string where
  "naoEncontrada = ''N'' @ [CHR 0xE3] @ ''o encontrada no arquivo''"

definition missingResult :: "AccountingRecord \<Rightarrow> ComparisonResult" where
  "missingResult acc =
     \<lparr> res_id = acc_chave acc,
       res_chave = acc_chave acc,
       res_numero = acc_numero acc,
       res_serie = '''',
       res_data = (if acc_dataEmissao acc \<noteq> '''' then acc_dataEmissao acc
                   else extractDateFromKey (Some (acc_chave acc))),
       res_valor = acc_valor acc,
       res_situacaoSefaz = naoEncontrada,
       res_status = MISSING_IN_SEFAZ,
       res_sefazRecord = None,
       res_accountingRecord = Some acc \<rparr>"

definition handleCompare_002 ::
  "AccountingRecord list \<Rightarrow> SefazRecord list \<Rightarrow> error + ComparisonResult list" where
  "handleCompare_002 accountingData sefazData =
     (if accountingData = [] \<or> sefazData = [] then Inl FilesNotLoaded
      else
        (let mapAccounting = buildMapAccounting accountingData;
             (mapEnd, comparison) = sefazPass_002 mapAccounting sefazData
         in Inr (comparison @ map (\<lambda>(k, acc). missingResult acc) mapEnd)))"

text \<open>What one result says about the ledger: a result without a ledger record carries
  the value \<open>0\<close> and is neither \<open>MATCHED\<close> nor \<open>MISSING_IN_SEFAZ\<close>; a result with a
  ledger record carries the key and the value of that record, which belongs to the ledger
  and has a non-empty key.\<close>

definition ledgerSound :: "AccountingRecord list \<Rightarrow> ComparisonResult \<Rightarrow> bool" where
  "ledgerSound accountingData r =
     (case res_accountingRecord r of
        None \<Rightarrow> res_valor r = Finite 0 \<and> res_status r \<noteq> MATCHED \<and> res_status r \<noteq> MISSING_IN_SEFAZ
      | Some a \<Rightarrow> a \<in> set accountingData \<and> acc_chave a \<noteq> '''' \<and> acc_chave a = res_chave r
                  \<and> res_valor r = acc_valor a)"

section \<open>Example data\<close>

text \<open>Two access keys of 44 digits, a ledger record and an authority record for a given
  key, a table cell and an authority table with a banner row, the header row, one invoice
  row, one row whose key has 20 digits only, and a totals row.\<close>

definition exKey1 :: string where
  "exKey1 = ''35240312345678901234550010000000011234567890''"

definition exKey2 :: string where
  "exKey2 = ''35240412345678901234550010000000021234567890''"

definition exAccounting :: "string \<Rightarrow> rat \<Rightarrow> AccountingRecord" where
  "exAccounting k v =
     \<lparr> acc_id = k, acc_numero = Some ''100'', acc_dataEmissao = ''01/03/2024'',
       acc_valor = Finite v, acc_chave = k, acc_sourceRow = [Some k, Some ''100''] \<rparr>"

definition exSefaz :: "string \<Rightarrow> string \<Rightarrow> SefazRecord" where
  "exSefaz k situacao =
     \<lparr> sefaz_id = k, sefaz_chave = k, sefaz_numero = ''100'', sefaz_serie = ''1'',
       sefaz_situacao = situacao, sefaz_emitente = ''ACME'', sefaz_data = '''',
       sefaz_sourceRow = [k, situacao] \<rparr>"

definition exCell :: "string \<Rightarrow> html_cell" where
  "exCell s = \<lparr> textContent = s, innerText = s \<rparr>"

definition exTable :: html_table where
  "exTable =
     [[exCell ''Consulta de NF-e'', exCell '''', exCell ''''],
      [exCell ''Chave de Acesso'', exCell (''Situa'' @ [CHR 0xE7, CHR 0xE3] @ ''o''), exCell ''Numero''],
      [exCell '' 3524 0312 3456 7890 1234 5500 1000 0000 0112 3456 7890 '', exCell ''Autorizada'', exCell ''100''],
      [exCell ''3524 0312 3456 7890 1234'', exCell ''Autorizada'', exCell ''101''],
      [exCell ''Total'', exCell '''', exCell ''2'']]"

section \<open>Evaluation rules\<close>

lemmas lower_defs = toLowerCase_def toLowerCase_char_def upperLetters_def lowerLetters_def

lemmas header_eval = normalizeHeader_def trim_def isWhiteSpace_def lower_defs
  stripAccent_char_def isLowerAlnum_def

lemmas key_eval = normalizeKey_def isDigit_def extractDateFromKey_def substring_def

lemmas float_eval = parseFloat_def parseUnsigned_def parseExponent_def scale10_def
  digitsValue_def digitVal_def trimStart_def isWhiteSpace_def isDigit_def

lemmas ledger_eval = parseAccountingFile_def findIndex_def isChaveHeader_def isNumeroHeader_def
  isValorHeader_def isDataHeader_def accountingRow_def row_at_def parseValor_def stripCurrency_def

lemmas sefaz_eval = cell_at_def requiredHeaders_def hasAll_def getVal_def isHeaderRow_def
  sefazRow_def

lemma exKey_neq: "exKey1 \<noteq> exKey2" "exKey2 \<noteq> exKey1" "exKey1 \<noteq> ''''" "exKey2 \<noteq> ''''"
  "'''' \<noteq> exKey1" "'''' \<noteq> exKey2"
  by (simp_all add: exKey1_def exKey2_def)

lemma ex_fields:
  "acc_chave (exAccounting k v) = k"
  "sefaz_chave (exSefaz k t) = k"
  "sefaz_situacao (exSefaz k t) = t"
  by (simp_all add: exAccounting_def exSefaz_def)

lemma ex_cancelada:
  "isCancelada (exSefaz k ''Cancelada'')"
  "\<not> isCancelada (exSefaz k ''Autorizada'')"
  by (simp_all add: isCancelada_def exSefaz_def lower_defs)

section \<open>Properties of the key normaliser\<close>

lemma digitCount_filter: "digitCount s = length (filter isDigit s)"
  by (induction s) (simp_all add: isDigit_def)

text \<open>
  Claim C8. For every string \<open>s\<close>, \<open>normalizeKey(s)\<close> contains only digit characters and
  is at most as long as the number of digit characters of \<open>s\<close>; for an empty or \<open>null\<close>
  input it is the empty string.
\<close>

theorem normalizeKey_only_digits:
  "(\<forall>c \<in> set (normalizeKey s). c \<in> set ''0123456789'')
   \<and> length (normalizeKey s) \<le> (case s of None \<Rightarrow> 0 | Some k \<Rightarrow> digitCount k)
   \<and> normalizeKey None = '''' \<and> normalizeKey (Some '''') = ''''"
proof -
  have "\<forall>c \<in> set (normalizeKey s). c \<in> set ''0123456789''"
    by (cases s) (auto simp: normalizeKey_def isDigit_def)
  moreover have "length (normalizeKey s) \<le> (case s of None \<Rightarrow> 0 | Some k \<Rightarrow> digitCount k)"
    by (cases s) (simp_all add: normalizeKey_def digitCount_filter)
  moreover have "normalizeKey None = '''' \<and> normalizeKey (Some '''') = ''''"
    by (simp add: normalizeKey_def)
  ultimately show ?thesis by blast
qed

theorem normalizeKey_only_digits_witness:
  "normalizeKey (Some ''35.24-a 07'') = ''352407''
   \<and> list_all (\<lambda>c. c \<in> set ''0123456789'') (normalizeKey (Some ''35.24-a 07''))
   \<and> length (normalizeKey (Some ''35.24-a 07'')) \<le> digitCount ''35.24-a 07''"
  using normalizeKey_only_digits [of "Some ''35.24-a 07''"]
  by (simp add: normalizeKey_def isDigit_def list_all_iff)

lemma take2_drop: "i + 2 \<le> length xs \<Longrightarrow> take 2 (drop i xs) = [xs ! i, xs ! Suc i]"
proof -
  assume a: "i + 2 \<le> length xs"
  then have "drop i xs = xs ! i # xs ! Suc i # drop (Suc (Suc i)) xs"
    by (simp add: Cons_nth_drop_Suc)
  then show ?thesis by simp
qed

text \<open>
  Claim C5. When the digits-only normalisation of the input has exactly 44 characters,
  \<open>extractDateFromKey\<close> returns \<open>MM/20YY\<close>, with \<open>YY\<close> the two digits at offsets 2 and 3
  and \<open>MM\<close> the two digits at offsets 4 and 5 of the normalised key; for every other
  input it returns the empty string.
\<close>

theorem extractDateFromKey_month_year:
  "(length (normalizeKey key) = 44 \<longrightarrow>
      extractDateFromKey key =
        [normalizeKey key ! 4, normalizeKey key ! 5] @ ''/20'' @
        [normalizeKey key ! 2, normalizeKey key ! 3])
   \<and> (length (normalizeKey key) \<noteq> 44 \<longrightarrow> extractDateFromKey key = '''')"
proof (intro conjI impI)
  assume len: "length (normalizeKey key) = 44"
  have "take 2 (drop 2 (normalizeKey key)) = [normalizeKey key ! 2, normalizeKey key ! Suc 2]"
    by (rule take2_drop) (simp add: len)
  moreover have "take 2 (drop 4 (normalizeKey key)) = [normalizeKey key ! 4, normalizeKey key ! Suc 4]"
    by (rule take2_drop) (simp add: len)
  moreover have "Suc 2 = 3" "Suc 4 = 5" by simp_all
  ultimately show "extractDateFromKey key =
        [normalizeKey key ! 4, normalizeKey key ! 5] @ ''/20'' @
        [normalizeKey key ! 2, normalizeKey key ! 3]"
    using len by (simp add: extractDateFromKey_def substring_def Let_def)
next
  assume "length (normalizeKey key) \<noteq> 44"
  then show "extractDateFromKey key = ''''"
    by (simp add: extractDateFromKey_def Let_def)
qed

theorem extractDateFromKey_month_year_witness:
  "length (normalizeKey (Some ''3524 0312 3456 7890 1234 5500 1000 0000 0112 3456 7890'')) = 44
   \<and> extractDateFromKey (Some ''3524 0312 3456 7890 1234 5500 1000 0000 0112 3456 7890'') = ''03/2024''
   \<and> length (normalizeKey (Some ''3524-03'')) \<noteq> 44
   \<and> extractDateFromKey (Some ''3524-03'') = ''''"
  using extractDateFromKey_month_year [of "Some ''3524 0312 3456 7890 1234 5500 1000 0000 0112 3456 7890''"]
        extractDateFromKey_month_year [of "Some ''3524-03''"]
  by (simp add: normalizeKey_def isDigit_def)

section \<open>Properties of reconciliation\<close>

subsection \<open>The ledger map\<close>

lemma buildMapAccounting_snoc:
  "buildMapAccounting (accs @ [a]) =
     (if acc_chave a \<noteq> '''' then AList.update (acc_chave a) a (buildMapAccounting accs)
      else buildMapAccounting accs)"
  by (simp add: buildMapAccounting_def)

lemma buildMapAccounting_Nil: "buildMapAccounting [] = []"
  by (simp add: buildMapAccounting_def)

lemma distinct_buildMapAccounting: "distinct (map fst (buildMapAccounting accs))"
  by (induction accs rule: rev_induct)
     (simp_all add: buildMapAccounting_Nil buildMapAccounting_snoc distinct_update)

lemma map_of_buildMapAccounting:
  "map_of (buildMapAccounting accs) k =
     (if k \<noteq> '''' \<and> k \<in> acc_chave ` set accs
      then Some (last (filter (\<lambda>a. acc_chave a = k) accs)) else None)"
proof (induction accs rule: rev_induct)
  case Nil
  show ?case by (simp add: buildMapAccounting_Nil)
next
  case (snoc a accs)
  show ?case
  proof (cases "acc_chave a = k")
    case True
    then show ?thesis
      using snoc.IH by (cases "k = ''''") (simp_all add: buildMapAccounting_snoc update_conv')
  next
    case False
    then show ?thesis
      using snoc.IH by (auto simp add: buildMapAccounting_snoc update_conv')
  qed
qed

lemma buildMapAccounting_entry:
  "(k, a) \<in> set (buildMapAccounting accs) \<longleftrightarrow>
     k \<noteq> '''' \<and> k \<in> acc_chave ` set accs \<and> a = last (filter (\<lambda>a. acc_chave a = k) accs)"
proof -
  have "(k, a) \<in> set (buildMapAccounting accs) \<longleftrightarrow> map_of (buildMapAccounting accs) k = Some a"
    using distinct_buildMapAccounting [of accs] by simp
  then show ?thesis by (auto simp add: map_of_buildMapAccounting)
qed

lemma last_filter_chave:
  assumes "k \<in> acc_chave ` set accs"
  shows "last (filter (\<lambda>a. acc_chave a = k) accs) \<in> set accs
         \<and> acc_chave (last (filter (\<lambda>a. acc_chave a = k) accs)) = k"
proof -
  from assms have ne: "filter (\<lambda>a. acc_chave a = k) accs \<noteq> []"
    by (auto simp add: filter_empty_conv)
  then have "last (filter (\<lambda>a. acc_chave a = k) accs) \<in> set (filter (\<lambda>a. acc_chave a = k) accs)"
    by (rule last_in_set)
  then show ?thesis by simp
qed

subsection \<open>The pass over the authority records\<close>

lemma sefazPass_002_length: "length (snd (sefazPass_002 m ss)) = length ss"
  by (induction ss arbitrary: m) (simp_all add: Let_def case_prod_beta)

lemma sefazPass_002_step_map:
  "(if \<not> isCancelada s \<and> map_of m (sefaz_chave s) \<noteq> None then AList.delete (sefaz_chave s) m else m)
   = (if isCancelada s then m else AList.delete (sefaz_chave s) m)"
proof (cases "map_of m (sefaz_chave s)")
  case None
  then have "sefaz_chave s \<notin> fst ` set m" by (simp add: map_of_eq_None_iff)
  then show ?thesis using None by simp
next
  case (Some a)
  then show ?thesis by simp
qed

lemma sefazPass_002_map:
  "fst (sefazPass_002 m ss) =
     filter (\<lambda>p. fst p \<notin> sefaz_chave ` {s \<in> set ss. \<not> isCancelada s}) m"
proof (induction ss arbitrary: m)
  case Nil
  show ?case by simp
next
  case (Cons s ss)
  have "fst (sefazPass_002 m (s # ss)) =
        fst (sefazPass_002 (if isCancelada s then m else AList.delete (sefaz_chave s) m) ss)"
    using sefazPass_002_step_map [of s m] by (simp add: Let_def case_prod_beta)
  also have "\<dots> = filter (\<lambda>p. fst p \<notin> sefaz_chave ` {s \<in> set ss. \<not> isCancelada s})
                      (if isCancelada s then m else AList.delete (sefaz_chave s) m)"
    by (rule Cons.IH)
  also have "\<dots> = filter (\<lambda>p. fst p \<notin> sefaz_chave ` {x \<in> set (s # ss). \<not> isCancelada x}) m"
    by (auto simp add: AList.delete_eq intro!: filter_cong)
  finally show ?case .
qed

lemma sefazPass_002_nth:
  "i < length ss \<Longrightarrow>
     snd (sefazPass_002 m ss) ! i =
       sefazResult
         (map_of (filter (\<lambda>p. fst p \<notin> sefaz_chave ` {s \<in> set (take i ss). \<not> isCancelada s}) m)
                 (sefaz_chave (ss ! i)))
         (ss ! i)"
proof (induction ss arbitrary: m i)
  case Nil
  then show ?case by simp
next
  case (Cons s ss)
  show ?case
  proof (cases i)
    case 0
    then show ?thesis by (simp add: Let_def case_prod_beta)
  next
    case (Suc j)
    with Cons.prems have j: "j < length ss" by simp
    have "snd (sefazPass_002 m (s # ss)) ! i =
          snd (sefazPass_002 (if isCancelada s then m else AList.delete (sefaz_chave s) m) ss) ! j"
      using sefazPass_002_step_map [of s m] Suc by (simp add: Let_def case_prod_beta)
    also have "\<dots> = sefazResult
         (map_of (filter (\<lambda>p. fst p \<notin> sefaz_chave ` {s \<in> set (take j ss). \<not> isCancelada s})
                    (if isCancelada s then m else AList.delete (sefaz_chave s) m))
                 (sefaz_chave (ss ! j)))
         (ss ! j)"
      by (rule Cons.IH [OF j])
    also have "filter (\<lambda>p. fst p \<notin> sefaz_chave ` {s \<in> set (take j ss). \<not> isCancelada s})
                    (if isCancelada s then m else AList.delete (sefaz_chave s) m)
               = filter (\<lambda>p. fst p \<notin> sefaz_chave ` {x \<in> set (take i (s # ss)). \<not> isCancelada x}) m"
      using Suc by (auto simp add: AList.delete_eq intro!: filter_cong)
    finally show ?thesis using Suc by simp
  qed
qed

subsection \<open>The result lists of the two versions\<close>

lemma handleCompare_Inr:
  "accountingData \<noteq> [] \<Longrightarrow> sefazData \<noteq> [] \<Longrightarrow>
   handleCompare accountingData sefazData =
     Inr (map (\<lambda>sefaz. sefazResult (map_of (buildMapAccounting accountingData) (sefaz_chave sefaz)) sefaz)
              sefazData)"
  by (simp add: handleCompare_def)

lemma handleCompare_002_Inr:
  "accountingData \<noteq> [] \<Longrightarrow> sefazData \<noteq> [] \<Longrightarrow>
   handleCompare_002 accountingData sefazData =
     Inr (snd (sefazPass_002 (buildMapAccounting accountingData) sefazData) @
          map (\<lambda>p. missingResult (snd p))
              (filter (\<lambda>p. fst p \<notin> sefaz_chave ` {s \<in> set sefazData. \<not> isCancelada s})
                      (buildMapAccounting accountingData)))"
  using sefazPass_002_map [of "buildMapAccounting accountingData" sefazData]
  by (simp add: handleCompare_002_def Let_def case_prod_beta)

lemma handleCompare_Inl:
  "accountingData = [] \<or> sefazData = [] \<Longrightarrow> handleCompare accountingData sefazData = Inl FilesNotLoaded"
  by (auto simp add: handleCompare_def)

lemma handleCompare_002_Inl:
  "accountingData = [] \<or> sefazData = [] \<Longrightarrow> handleCompare_002 accountingData sefazData = Inl FilesNotLoaded"
  by (auto simp add: handleCompare_002_def)

lemma sefazResult_fields:
  "res_sefazRecord (sefazResult match s) = Some s"
  "res_accountingRecord (sefazResult match s) = match"
  "res_chave (sefazResult match s) = sefaz_chave s"
  "res_status (sefazResult match s) = sefazStatus match s"
  "res_valor (sefazResult match s) = (case match of None \<Rightarrow> Finite 0 | Some a \<Rightarrow> acc_valor a)"
  by (simp_all add: sefazResult_def)

lemma sefazStatus_cancelada: "isCancelada s \<Longrightarrow> sefazStatus match s = CANCELLED"
  by (simp add: sefazStatus_def)

text \<open>
  Claim C1. For every ledger list and authority list, and every authority record whose
  status text contains \<open>cancelada\<close> in any letter case, the result that reconciliation
  emits for that record has status \<open>CANCELLED\<close>, also when a ledger record with the same
  key exists. Both versions of \<open>handleCompare\<close> emit the result of the \<open>i\<close>-th authority
  record at index \<open>i\<close>; the only run that emits no result for it is the one stopped by
  an empty ledger list.
\<close>

theorem cancelada_is_CANCELLED:
  assumes "i < length sefazData" and "isCancelada (sefazData ! i)"
  shows "(case handleCompare accountingData sefazData of
            Inl e \<Rightarrow> accountingData = []
          | Inr res \<Rightarrow> length res = length sefazData
                      \<and> res_sefazRecord (res ! i) = Some (sefazData ! i)
                      \<and> res_status (res ! i) = CANCELLED)
       \<and> (case handleCompare_002 accountingData sefazData of
            Inl e \<Rightarrow> accountingData = []
          | Inr res \<Rightarrow> length sefazData \<le> length res
                      \<and> res_sefazRecord (res ! i) = Some (sefazData ! i)
                      \<and> res_status (res ! i) = CANCELLED)"
proof (cases "accountingData = []")
  case True
  then show ?thesis by (simp add: handleCompare_Inl handleCompare_002_Inl)
next
  case False
  from assms(1) have ne: "sefazData \<noteq> []" by auto
  have first: "case handleCompare accountingData sefazData of
            Inl e \<Rightarrow> accountingData = []
          | Inr res \<Rightarrow> length res = length sefazData
                      \<and> res_sefazRecord (res ! i) = Some (sefazData ! i)
                      \<and> res_status (res ! i) = CANCELLED"
    using assms by (simp add: handleCompare_Inr [OF False ne] sefazResult_fields sefazStatus_cancelada)
  have nth: "(snd (sefazPass_002 (buildMapAccounting accountingData) sefazData) @ rest) ! i =
             snd (sefazPass_002 (buildMapAccounting accountingData) sefazData) ! i" for rest
    using assms(1) by (simp add: nth_append sefazPass_002_length)
  have second: "case handleCompare_002 accountingData sefazData of
            Inl e \<Rightarrow> accountingData = []
          | Inr res \<Rightarrow> length sefazData \<le> length res
                      \<and> res_sefazRecord (res ! i) = Some (sefazData ! i)
                      \<and> res_status (res ! i) = CANCELLED"
    using assms
    by (simp add: handleCompare_002_Inr [OF False ne] nth sefazPass_002_nth sefazPass_002_length
          sefazResult_fields sefazStatus_cancelada)
  from first second show ?thesis by simp
qed

theorem cancelada_is_CANCELLED_witness:
  "(0::nat) < length [exSefaz exKey1 ''Cancelada'']
   \<and> isCancelada ([exSefaz exKey1 ''Cancelada''] ! 0)
   \<and> acc_chave (exAccounting exKey1 10) = sefaz_chave (exSefaz exKey1 ''Cancelada'')
   \<and> (case handleCompare [exAccounting exKey1 10] [exSefaz exKey1 ''Cancelada''] of
        Inl e \<Rightarrow> False
      | Inr res \<Rightarrow> res_status (res ! 0) = CANCELLED
                  \<and> res_accountingRecord (res ! 0) = Some (exAccounting exKey1 10))
   \<and> (case handleCompare_002 [exAccounting exKey1 10] [exSefaz exKey1 ''Cancelada''] of
        Inl e \<Rightarrow> False
      | Inr res \<Rightarrow> res_status (res ! 0) = CANCELLED
                  \<and> res_accountingRecord (res ! 0) = Some (exAccounting exKey1 10))"
proof -
  have h1: "(0::nat) < length [exSefaz exKey1 ''Cancelada'']" by simp
  have h2: "isCancelada ([exSefaz exKey1 ''Cancelada''] ! 0)"
    by (simp add: isCancelada_def exSefaz_def lower_defs)
  have m: "buildMapAccounting [exAccounting exKey1 10] = [(exKey1, exAccounting exKey1 10)]"
    by (simp add: buildMapAccounting_def exAccounting_def exKey1_def)
  show ?thesis
    using cancelada_is_CANCELLED [OF h1 h2, of "[exAccounting exKey1 10]"] h2
    by (simp add: handleCompare_def handleCompare_002_def m sefazResult_def Let_def)
       (simp add: exAccounting_def exSefaz_def)
qed

lemma buildMapAccounting_keys:
  "fst ` set (buildMapAccounting accs) = {k \<in> acc_chave ` set accs. k \<noteq> ''''}"
proof -
  have "k \<in> fst ` set (buildMapAccounting accs) \<longleftrightarrow> k \<in> acc_chave ` set accs \<and> k \<noteq> ''''" for k
  proof -
    have "k \<in> fst ` set (buildMapAccounting accs) \<longleftrightarrow> map_of (buildMapAccounting accs) k \<noteq> None"
      by (simp add: map_of_eq_None_iff)
    then show ?thesis by (auto simp add: map_of_buildMapAccounting)
  qed
  then show ?thesis by blast
qed

lemma map_of_buildMapAccounting_Some:
  assumes "map_of (buildMapAccounting accs) k = Some a"
  shows "a \<in> set accs \<and> acc_chave a = k \<and> k \<noteq> ''''
         \<and> last (filter (\<lambda>a. acc_chave a = k) accs) = a"
proof -
  from assms have k: "k \<noteq> ''''" "k \<in> acc_chave ` set accs"
    and a: "a = last (filter (\<lambda>a. acc_chave a = k) accs)"
    by (auto simp add: map_of_buildMapAccounting split: if_splits)
  with last_filter_chave [OF k(2)] show ?thesis by simp
qed

lemma map_of_filter_Some:
  "map_of (filter P m) k = Some a \<Longrightarrow> distinct (map fst m) \<Longrightarrow> map_of m k = Some a"
proof -
  assume a: "map_of (filter P m) k = Some a" and d: "distinct (map fst m)"
  from a have "(k, a) \<in> set (filter P m)" by (rule map_of_SomeD)
  then have "(k, a) \<in> set m" by simp
  with d show ?thesis by simp
qed

lemma ledgerSound_sefazResult:
  assumes "distinct (map fst m)" and "set m \<subseteq> set (buildMapAccounting accs)"
  shows "ledgerSound accs (sefazResult (map_of m (sefaz_chave s)) s)"
proof (cases "map_of m (sefaz_chave s)")
  case None
  then show ?thesis
    by (simp add: ledgerSound_def sefazResult_def sefazStatus_def)
next
  case (Some a)
  then have "(sefaz_chave s, a) \<in> set m" by (rule map_of_SomeD)
  with assms(2) have "(sefaz_chave s, a) \<in> set (buildMapAccounting accs)" by blast
  then have "map_of (buildMapAccounting accs) (sefaz_chave s) = Some a"
    using distinct_buildMapAccounting [of accs] by simp
  from map_of_buildMapAccounting_Some [OF this] Some show ?thesis
    by (simp add: ledgerSound_def sefazResult_def)
qed

lemma ledgerSound_missingResult:
  assumes "(k, a) \<in> set (buildMapAccounting accs)"
  shows "ledgerSound accs (missingResult a)"
proof -
  from assms have "map_of (buildMapAccounting accs) k = Some a"
    using distinct_buildMapAccounting [of accs] by simp
  from map_of_buildMapAccounting_Some [OF this] show ?thesis
    by (simp add: ledgerSound_def missingResult_def)
qed

text \<open>
  Claim C10. The key-to-record map never holds the empty key. So in both versions of
  \<open>handleCompare\<close> every result either refers to no ledger record (then its value is \<open>0\<close>
  and it is neither \<open>MATCHED\<close> nor \<open>MISSING_IN_SEFAZ\<close>), or refers to a ledger record with
  a non-empty key, whose key and value it carries: a ledger record with an empty key is
  never matched, never gives its value to a result and is never reported as
  \<open>MISSING_IN_SEFAZ\<close>.
\<close>

theorem empty_key_records_never_used:
  assumes "handleCompare accountingData sefazData = Inr res
           \<or> handleCompare_002 accountingData sefazData = Inr res"
    and "r \<in> set res"
  shows "'''' \<notin> fst ` set (buildMapAccounting accountingData)
         \<and> (case res_accountingRecord r of
              None \<Rightarrow> res_valor r = Finite 0 \<and> res_status r \<noteq> MATCHED
                      \<and> res_status r \<noteq> MISSING_IN_SEFAZ
            | Some a \<Rightarrow> a \<in> set accountingData \<and> acc_chave a \<noteq> ''''
                        \<and> acc_chave a = res_chave r \<and> res_valor r = acc_valor a)"
proof -
  have ne: "accountingData \<noteq> []" "sefazData \<noteq> []"
    using assms(1) by (auto simp add: handleCompare_def handleCompare_002_def split: if_splits)
  have d: "distinct (map fst (buildMapAccounting accountingData))"
    by (rule distinct_buildMapAccounting)
  have "ledgerSound accountingData r"
    using assms(1)
  proof
    assume "handleCompare accountingData sefazData = Inr res"
    with assms(2) obtain s where "r = sefazResult (map_of (buildMapAccounting accountingData) (sefaz_chave s)) s"
      by (auto simp add: handleCompare_Inr [OF ne])
    then show ?thesis using ledgerSound_sefazResult [OF d subset_refl] by simp
  next
    assume "handleCompare_002 accountingData sefazData = Inr res"
    then have res: "res = snd (sefazPass_002 (buildMapAccounting accountingData) sefazData) @
          map (\<lambda>p. missingResult (snd p))
              (filter (\<lambda>p. fst p \<notin> sefaz_chave ` {s \<in> set sefazData. \<not> isCancelada s})
                      (buildMapAccounting accountingData))"
      by (simp add: handleCompare_002_Inr [OF ne])
    from assms(2) consider
        (pass) "r \<in> set (snd (sefazPass_002 (buildMapAccounting accountingData) sefazData))"
      | (rest) "r \<in> set (map (\<lambda>p. missingResult (snd p))
              (filter (\<lambda>p. fst p \<notin> sefaz_chave ` {s \<in> set sefazData. \<not> isCancelada s})
                      (buildMapAccounting accountingData)))"
      unfolding res by auto
    then show ?thesis
    proof cases
      case pass
      then obtain i where i: "i < length sefazData"
        and r: "r = snd (sefazPass_002 (buildMapAccounting accountingData) sefazData) ! i"
        by (auto simp add: in_set_conv_nth sefazPass_002_length)
      show ?thesis
        unfolding r sefazPass_002_nth [OF i]
        by (rule ledgerSound_sefazResult) (simp_all add: distinct_map_filter d)
    next
      case rest
      then obtain k a where "(k, a) \<in> set (buildMapAccounting accountingData)" "r = missingResult a"
        by auto
      then show ?thesis using ledgerSound_missingResult by blast
    qed
  qed
  moreover have "'''' \<notin> fst ` set (buildMapAccounting accountingData)"
    by (simp add: buildMapAccounting_keys)
  ultimately show ?thesis by (simp add: ledgerSound_def)
qed

theorem empty_key_records_never_used_witness:
  "handleCompare_002 [exAccounting '''' 10, exAccounting exKey1 20] [exSefaz '''' ''Autorizada'']
     = Inr [sefazResult None (exSefaz '''' ''Autorizada''), missingResult (exAccounting exKey1 20)]
   \<and> handleCompare [exAccounting '''' 10, exAccounting exKey1 20] [exSefaz '''' ''Autorizada'']
     = Inr [sefazResult None (exSefaz '''' ''Autorizada'')]
   \<and> res_accountingRecord (sefazResult None (exSefaz '''' ''Autorizada'')) = None
   \<and> res_valor (sefazResult None (exSefaz '''' ''Autorizada'')) = Finite 0
   \<and> res_status (sefazResult None (exSefaz '''' ''Autorizada'')) = MISSING_IN_ACCOUNTING
   \<and> '''' \<notin> fst ` set (buildMapAccounting [exAccounting '''' 10, exAccounting exKey1 20])"
proof -
  have m: "buildMapAccounting [exAccounting '''' 10, exAccounting exKey1 20]
           = [(exKey1, exAccounting exKey1 20)]"
    by (simp add: buildMapAccounting_def exAccounting_def exKey1_def)
  have nc: "\<not> isCancelada (exSefaz '''' ''Autorizada'')"
    by (simp add: isCancelada_def exSefaz_def lower_defs)
  have k: "sefaz_chave (exSefaz '''' ''Autorizada'') = ''''" "exKey1 \<noteq> ''''" "'''' \<noteq> exKey1"
    by (simp_all add: exSefaz_def exKey1_def)
  have h2: "handleCompare_002 [exAccounting '''' 10, exAccounting exKey1 20] [exSefaz '''' ''Autorizada'']
     = Inr [sefazResult None (exSefaz '''' ''Autorizada''), missingResult (exAccounting exKey1 20)]"
    by (simp add: handleCompare_002_def m nc k Let_def)
  have h1: "handleCompare [exAccounting '''' 10, exAccounting exKey1 20] [exSefaz '''' ''Autorizada'']
     = Inr [sefazResult None (exSefaz '''' ''Autorizada'')]"
    by (simp add: handleCompare_def m k Let_def)
  have mem: "sefazResult None (exSefaz '''' ''Autorizada'')
     \<in> set [sefazResult None (exSefaz '''' ''Autorizada''), missingResult (exAccounting exKey1 20)]"
    by simp
  have mem1: "sefazResult None (exSefaz '''' ''Autorizada'')
     \<in> set [sefazResult None (exSefaz '''' ''Autorizada'')]"
    by simp
  show ?thesis
    using empty_key_records_never_used [OF disjI2 [OF h2] mem]
          empty_key_records_never_used [OF disjI1 [OF h1] mem1] h1 h2 nc
    by (simp add: sefazResult_fields sefazStatus_def)
qed

lemma missing_chaves:
  "map res_chave (map (\<lambda>p. missingResult (snd p)) (filter P (buildMapAccounting accs)))
   = map fst (filter P (buildMapAccounting accs))"
proof -
  have "res_chave (missingResult (snd p)) = fst p" if "p \<in> set (buildMapAccounting accs)" for p
  proof -
    from that have "(fst p, snd p) \<in> set (buildMapAccounting accs)" by simp
    then have "map_of (buildMapAccounting accs) (fst p) = Some (snd p)"
      using distinct_buildMapAccounting [of accs] by simp
    from map_of_buildMapAccounting_Some [OF this] show ?thesis
      by (simp add: missingResult_def)
  qed
  then show ?thesis by simp
qed

lemma missing_records:
  assumes "r \<in> set (map (\<lambda>p. missingResult (snd p)) (filter P (buildMapAccounting accs)))"
  shows "r = missingResult (last (filter (\<lambda>a. acc_chave a = res_chave r) accs))"
proof -
  from assms obtain p where p: "p \<in> set (buildMapAccounting accs)" and r: "r = missingResult (snd p)"
    by auto
  from p have "(fst p, snd p) \<in> set (buildMapAccounting accs)" by simp
  then have "map_of (buildMapAccounting accs) (fst p) = Some (snd p)"
    using distinct_buildMapAccounting [of accs] by simp
  from map_of_buildMapAccounting_Some [OF this] r show ?thesis
    by (simp add: missingResult_def)
qed

lemma pending_keys:
  "fst ` set (filter (\<lambda>p. fst p \<notin> sefaz_chave ` {s \<in> set ss. \<not> isCancelada s})
                     (buildMapAccounting accs))
   = {k \<in> acc_chave ` set accs. k \<noteq> '''' \<and> (\<forall>s \<in> set ss. sefaz_chave s = k \<longrightarrow> isCancelada s)}"
proof -
  have "fst ` set (filter (\<lambda>p. fst p \<notin> sefaz_chave ` {s \<in> set ss. \<not> isCancelada s})
                     (buildMapAccounting accs))
        = {k \<in> fst ` set (buildMapAccounting accs). k \<notin> sefaz_chave ` {s \<in> set ss. \<not> isCancelada s}}"
    by auto
  also have "\<dots> = {k \<in> acc_chave ` set accs. k \<noteq> '''' \<and> (\<forall>s \<in> set ss. sefaz_chave s = k \<longrightarrow> isCancelada s)}"
    unfolding buildMapAccounting_keys by (auto simp add: image_iff)
  finally show ?thesis .
qed

text \<open>The shape of the result list of \<open>src/unnamed/part_002\<close>: the results of the
  authority records come first, in their order; the rest has one result for every key
  left in the map.\<close>

lemma handleCompare_002_structure:
  assumes "accountingData \<noteq> []" and "sefazData \<noteq> []"
  shows "\<exists>res. handleCompare_002 accountingData sefazData = Inr res
      \<and> length sefazData \<le> length res
      \<and> (\<forall>i < length sefazData.
            res_sefazRecord (res ! i) = Some (sefazData ! i)
            \<and> res_chave (res ! i) = sefaz_chave (sefazData ! i))
      \<and> distinct (map res_chave (drop (length sefazData) res))
      \<and> set (map res_chave (drop (length sefazData) res))
          = {k \<in> acc_chave ` set accountingData.
               k \<noteq> '''' \<and> (\<forall>s \<in> set sefazData. sefaz_chave s = k \<longrightarrow> isCancelada s)}
      \<and> (\<forall>r \<in> set (drop (length sefazData) res).
            r = missingResult (last (filter (\<lambda>a. acc_chave a = res_chave r) accountingData))
            \<and> res_status r = MISSING_IN_SEFAZ
            \<and> res_situacaoSefaz r = naoEncontrada
            \<and> res_sefazRecord r = None)"
proof -
  let ?pass = "snd (sefazPass_002 (buildMapAccounting accountingData) sefazData)"
  let ?P = "\<lambda>p. fst p \<notin> sefaz_chave ` {s \<in> set sefazData. \<not> isCancelada s}"
  let ?rest = "map (\<lambda>p. missingResult (snd p)) (filter ?P (buildMapAccounting accountingData))"
  have res: "handleCompare_002 accountingData sefazData = Inr (?pass @ ?rest)"
    by (rule handleCompare_002_Inr [OF assms])
  have len: "length ?pass = length sefazData"
    by (rule sefazPass_002_length)
  have dr: "drop (length sefazData) (?pass @ ?rest) = ?rest"
    using len by simp
  have a: "length sefazData \<le> length (?pass @ ?rest)"
    using len by simp
  have b: "\<forall>i < length sefazData.
            res_sefazRecord ((?pass @ ?rest) ! i) = Some (sefazData ! i)
            \<and> res_chave ((?pass @ ?rest) ! i) = sefaz_chave (sefazData ! i)"
    using len by (simp add: nth_append sefazPass_002_nth sefazResult_fields)
  have c: "distinct (map res_chave ?rest)"
    unfolding missing_chaves
    by (rule distinct_map_filter) (rule distinct_buildMapAccounting)
  have d: "set (map res_chave ?rest)
          = {k \<in> acc_chave ` set accountingData.
               k \<noteq> '''' \<and> (\<forall>s \<in> set sefazData. sefaz_chave s = k \<longrightarrow> isCancelada s)}"
    unfolding missing_chaves using pending_keys [of sefazData accountingData] by simp
  have e: "\<forall>r \<in> set ?rest.
            r = missingResult (last (filter (\<lambda>a. acc_chave a = res_chave r) accountingData))
            \<and> res_status r = MISSING_IN_SEFAZ
            \<and> res_situacaoSefaz r = naoEncontrada
            \<and> res_sefazRecord r = None"
  proof
    fix r assume r: "r \<in> set ?rest"
    from missing_records [OF r]
    have "r = missingResult (last (filter (\<lambda>a. acc_chave a = res_chave r) accountingData))" .
    moreover from r have "res_status r = MISSING_IN_SEFAZ \<and> res_situacaoSefaz r = naoEncontrada
            \<and> res_sefazRecord r = None"
      by (auto simp add: missingResult_def)
    ultimately show "r = missingResult (last (filter (\<lambda>a. acc_chave a = res_chave r) accountingData))
            \<and> res_status r = MISSING_IN_SEFAZ
            \<and> res_situacaoSefaz r = naoEncontrada
            \<and> res_sefazRecord r = None" by simp
  qed
  show ?thesis
    apply (rule exI [of _ "?pass @ ?rest"])
    unfolding dr
    using res a b c d e by blast
qed





text \<open>
  Claim C9, as amended. In the version of \<open>handleCompare\<close> that reports unmatched ledger
  records, a ledger record with a non-empty key that an authority record with a
  \<open>cancelada\<close> status carries gets both a \<open>CANCELLED\<close> result of that authority record and
  a \<open>MISSING_IN_SEFAZ\<close> result with the fixed status text for the same key, provided that
  every authority record with that key has a \<open>cancelada\<close> status.
\<close>

theorem cancelled_match_also_missing:
  assumes "a \<in> set accountingData" and "acc_chave a \<noteq> ''''"
    and "s \<in> set sefazData" and "sefaz_chave s = acc_chave a" and "isCancelada s"
    and "\<forall>s' \<in> set sefazData. sefaz_chave s' = acc_chave a \<longrightarrow> isCancelada s'"
  shows "\<exists>res. handleCompare_002 accountingData sefazData = Inr res
      \<and> (\<exists>r \<in> set res. res_status r = CANCELLED \<and> res_chave r = acc_chave a
                         \<and> res_sefazRecord r = Some s)
      \<and> (\<exists>r \<in> set res. res_status r = MISSING_IN_SEFAZ \<and> res_chave r = acc_chave a
                         \<and> res_situacaoSefaz r = naoEncontrada \<and> res_sefazRecord r = None)"
proof -
  from assms(1,3) have ne: "accountingData \<noteq> []" "sefazData \<noteq> []" by auto
  from handleCompare_002_structure [OF ne] obtain res where
    res: "handleCompare_002 accountingData sefazData = Inr res"
    and len: "length sefazData \<le> length res"
    and auth: "\<forall>i < length sefazData.
            res_sefazRecord (res ! i) = Some (sefazData ! i)
            \<and> res_chave (res ! i) = sefaz_chave (sefazData ! i)"
    and keys: "set (map res_chave (drop (length sefazData) res))
          = {k \<in> acc_chave ` set accountingData.
               k \<noteq> '''' \<and> (\<forall>s \<in> set sefazData. sefaz_chave s = k \<longrightarrow> isCancelada s)}"
    and rest: "\<forall>r \<in> set (drop (length sefazData) res).
            r = missingResult (last (filter (\<lambda>a. acc_chave a = res_chave r) accountingData))
            \<and> res_status r = MISSING_IN_SEFAZ
            \<and> res_situacaoSefaz r = naoEncontrada
            \<and> res_sefazRecord r = None"
    by blast
  from assms(3) obtain i where i: "i < length sefazData" and si: "sefazData ! i = s"
    by (auto simp add: in_set_conv_nth)
  from res have "res = snd (sefazPass_002 (buildMapAccounting accountingData) sefazData) @
          map (\<lambda>p. missingResult (snd p))
              (filter (\<lambda>p. fst p \<notin> sefaz_chave ` {s \<in> set sefazData. \<not> isCancelada s})
                      (buildMapAccounting accountingData))"
    by (simp add: handleCompare_002_Inr [OF ne])
  with i si assms(5) have "res_status (res ! i) = CANCELLED"
    by (simp add: nth_append sefazPass_002_length sefazPass_002_nth sefazResult_fields
          sefazStatus_cancelada)
  moreover from auth i si assms(4)
  have "res_sefazRecord (res ! i) = Some s" "res_chave (res ! i) = acc_chave a" by auto
  moreover from i len have "res ! i \<in> set res" by simp
  ultimately have first: "\<exists>r \<in> set res. res_status r = CANCELLED \<and> res_chave r = acc_chave a
                         \<and> res_sefazRecord r = Some s" by blast
  from assms(1,2,6) have "acc_chave a \<in> set (map res_chave (drop (length sefazData) res))"
    unfolding keys by blast
  then obtain r where r: "r \<in> set (drop (length sefazData) res)" "res_chave r = acc_chave a"
    by auto
  with rest have "res_status r = MISSING_IN_SEFAZ \<and> res_situacaoSefaz r = naoEncontrada
      \<and> res_sefazRecord r = None" by blast
  moreover from r(1) have "r \<in> set res" by (rule in_set_dropD)
  ultimately have second: "\<exists>r \<in> set res. res_status r = MISSING_IN_SEFAZ \<and> res_chave r = acc_chave a
                         \<and> res_situacaoSefaz r = naoEncontrada \<and> res_sefazRecord r = None"
    using r(2) by blast
  from res first second show ?thesis by blast
qed

theorem cancelled_match_also_missing_witness:
  "exAccounting exKey1 10 \<in> set [exAccounting exKey1 10]
   \<and> acc_chave (exAccounting exKey1 10) \<noteq> ''''
   \<and> sefaz_chave (exSefaz exKey1 ''Cancelada'') = acc_chave (exAccounting exKey1 10)
   \<and> isCancelada (exSefaz exKey1 ''Cancelada'')
   \<and> handleCompare_002 [exAccounting exKey1 10] [exSefaz exKey1 ''Cancelada'']
       = Inr [sefazResult (Some (exAccounting exKey1 10)) (exSefaz exKey1 ''Cancelada''),
              missingResult (exAccounting exKey1 10)]
   \<and> res_status (sefazResult (Some (exAccounting exKey1 10)) (exSefaz exKey1 ''Cancelada'')) = CANCELLED
   \<and> res_status (missingResult (exAccounting exKey1 10)) = MISSING_IN_SEFAZ
   \<and> res_chave (missingResult (exAccounting exKey1 10)) = exKey1"
proof -
  have h1: "exAccounting exKey1 10 \<in> set [exAccounting exKey1 10]" by simp
  have h2: "acc_chave (exAccounting exKey1 10) \<noteq> ''''" by (simp add: ex_fields exKey_neq)
  have h3: "exSefaz exKey1 ''Cancelada'' \<in> set [exSefaz exKey1 ''Cancelada'']" by simp
  have h4: "sefaz_chave (exSefaz exKey1 ''Cancelada'') = acc_chave (exAccounting exKey1 10)"
    by (simp add: ex_fields)
  have h5: "isCancelada (exSefaz exKey1 ''Cancelada'')" by (rule ex_cancelada)
  have h6: "\<forall>s' \<in> set [exSefaz exKey1 ''Cancelada''].
              sefaz_chave s' = acc_chave (exAccounting exKey1 10) \<longrightarrow> isCancelada s'"
    by (simp add: ex_cancelada)
  have m: "buildMapAccounting [exAccounting exKey1 10] = [(exKey1, exAccounting exKey1 10)]"
    by (simp add: buildMapAccounting_def ex_fields exKey_neq)
  have r: "handleCompare_002 [exAccounting exKey1 10] [exSefaz exKey1 ''Cancelada'']
       = Inr [sefazResult (Some (exAccounting exKey1 10)) (exSefaz exKey1 ''Cancelada''),
              missingResult (exAccounting exKey1 10)]"
    by (simp add: handleCompare_002_def m ex_fields ex_cancelada Let_def)
  show ?thesis
    using cancelled_match_also_missing [OF h1 h2 h3 h4 h5 h6] r h2 h5
    by (simp add: sefazResult_fields sefazStatus_def missingResult_def ex_fields)
qed

theorem cancelled_match_also_missing_counterexample:
  "acc_chave (exAccounting exKey1 10) = sefaz_chave (exSefaz exKey1 ''Cancelada'')
   \<and> isCancelada (exSefaz exKey1 ''Cancelada'')
   \<and> handleCompare_002 [exAccounting exKey1 10]
        [exSefaz exKey1 ''Autorizada'', exSefaz exKey1 ''Cancelada'']
       = Inr [sefazResult (Some (exAccounting exKey1 10)) (exSefaz exKey1 ''Autorizada''),
              sefazResult None (exSefaz exKey1 ''Cancelada'')]
   \<and> res_status (sefazResult (Some (exAccounting exKey1 10)) (exSefaz exKey1 ''Autorizada'')) = MATCHED
   \<and> res_status (sefazResult None (exSefaz exKey1 ''Cancelada'')) = CANCELLED"
proof -
  have m: "buildMapAccounting [exAccounting exKey1 10] = [(exKey1, exAccounting exKey1 10)]"
    by (simp add: buildMapAccounting_def ex_fields exKey_neq)
  show ?thesis
    by (simp add: handleCompare_002_def m ex_fields ex_cancelada Let_def sefazResult_fields
          sefazStatus_def)
qed

section \<open>Properties of the number model\<close>

text \<open>\<open>floorLog2\<close> brackets its argument between two neighbouring powers of two, and is
  the only exponent that does.\<close>

lemma floorLog2_bounds:
  assumes "0 < a"
  shows "2 powi (floorLog2 a) \<le> a \<and> a < 2 powi (floorLog2 a + 1)"
proof -
  obtain n d where nd: "quotient_of a = (n, d)" by (cases "quotient_of a")
  then have d: "0 < d" and a: "a = of_int n / of_int d"
    by (simp_all add: quotient_of_denom_pos quotient_of_div)
  with assms have n: "0 < n" by (simp add: zero_less_divide_iff)
  define bn bd where "bn = bitlen n" and "bd = bitlen d"
  have bn: "1 \<le> bn" and bd: "1 \<le> bd"
    using n d bitlen_eq_zero_iff [of n] bitlen_eq_zero_iff [of d] bitlen_nonneg [of n] bitlen_nonneg [of d]
    by (simp_all add: bn_def bd_def)
  from bitlen_bounds [OF n] have "2 ^ nat (bn - 1) \<le> n" "n < 2 ^ nat bn"
    by (simp_all add: bn_def)
  then have "rat_of_int (2 ^ nat (bn - 1)) \<le> rat_of_int n" "rat_of_int n < rat_of_int (2 ^ nat bn)"
    by (simp_all only: of_int_le_iff of_int_less_iff)
  with bn have n1: "(2::rat) powi (bn - 1) \<le> of_int n" and n2: "of_int n < (2::rat) powi bn"
    by (simp_all add: power_int_def)
  from bitlen_bounds [OF d] have "2 ^ nat (bd - 1) \<le> d" "d < 2 ^ nat bd"
    by (simp_all add: bd_def)
  then have "rat_of_int (2 ^ nat (bd - 1)) \<le> rat_of_int d" "rat_of_int d < rat_of_int (2 ^ nat bd)"
    by (simp_all only: of_int_le_iff of_int_less_iff)
  with bd have d1: "(2::rat) powi (bd - 1) \<le> of_int d" and d2: "of_int d < (2::rat) powi bd"
    by (simp_all add: power_int_def)
  have pos: "0 < (2::rat) powi m" for m by simp
  have upper: "a < 2 powi (bn - bd + 1)"
  proof -
    have "a < 2 powi bn / 2 powi (bd - 1)"
      unfolding a using n n2 d1 pos [of "bd - 1"] by (intro frac_less) simp_all
    also have "\<dots> = 2 powi (bn - (bd - 1))" by (simp add: power_int_diff)
    finally show ?thesis by (simp add: algebra_simps)
  qed
  have lower: "2 powi (bn - bd - 1) \<le> a"
  proof -
    have "2 powi (bn - 1) / 2 powi bd \<le> a"
      unfolding a using n n1 d d2 by (intro frac_le) simp_all
    moreover have "2 powi (bn - 1) / 2 powi bd = (2::rat) powi (bn - 1 - bd)"
      by (simp add: power_int_diff)
    ultimately show ?thesis by (simp add: algebra_simps)
  qed
  have fl: "floorLog2 a = (if 2 powi (bn - bd) \<le> a then bn - bd else bn - bd - 1)"
    by (simp add: floorLog2_def nd bn_def bd_def Let_def)
  show ?thesis
  proof (cases "2 powi (bn - bd) \<le> a")
    case True
    with fl upper show ?thesis by simp
  next
    case False
    with fl lower show ?thesis by simp
  qed
qed

lemma floorLog2_eqI:
  assumes "2 powi e \<le> a" and "a < 2 powi (e + 1)"
  shows "floorLog2 a = e"
proof -
  have "0 < (2::rat) powi e" by simp
  with assms(1) have pos: "0 < a" by linarith
  from floorLog2_bounds [OF pos]
  have b: "2 powi (floorLog2 a) \<le> a" "a < 2 powi (floorLog2 a + 1)" by simp_all
  have "(2::rat) powi e < 2 powi (floorLog2 a + 1)" using assms(1) b(2) by linarith
  then have "e < floorLog2 a + 1"
    by (metis linorder_not_less power_int_increasing one_le_numeral)
  moreover have "(2::rat) powi (floorLog2 a) < 2 powi (e + 1)" using assms(2) b(1) by linarith
  then have "floorLog2 a < e + 1"
    by (metis linorder_not_less power_int_increasing one_le_numeral)
  ultimately show ?thesis by linarith
qed

lemma floor_rat_numeral: "\<lfloor>(numeral a / numeral b :: rat)\<rfloor> = numeral a div numeral b"
  using floor_divide_of_int_eq [of "numeral a" "numeral b", where ?'a = rat] by simp

lemma roundHalfEven_ge_floor: "\<lfloor>y\<rfloor> \<le> roundHalfEven y"
  by (simp add: roundHalfEven_def Let_def)

text \<open>A value of \<open>2^1024\<close> or more overflows to an infinity, and a value below half the
  smallest subnormal double underflows to zero.\<close>

lemma toNumber_overflow:
  assumes "2 powi 1024 \<le> \<bar>q\<bar>"
  shows "toNumber q = (if q < 0 then NegInfinity else PosInfinity)"
proof -
  let ?a = "\<bar>q\<bar>"
  let ?e = "floorLog2 ?a"
  let ?p = "max ?e (- 1022) - 52"
  let ?y = "?a / 2 powi ?p"
  have "0 < (2::rat) powi 1024" by simp
  with assms have pos: "0 < ?a" by linarith
  then have q: "q \<noteq> 0" by simp
  from floorLog2_bounds [OF pos] have lo: "2 powi ?e \<le> ?a" and hi: "?a < 2 powi (?e + 1)"
    by simp_all
  from assms hi have "(2::rat) powi 1024 < 2 powi (?e + 1)" by linarith
  then have "1024 < ?e + 1"
    by (metis linorder_not_less power_int_increasing one_le_numeral)
  then have e: "1024 \<le> ?e" by linarith
  then have p: "?p = ?e - 52" by simp
  have "(2::rat) powi 52 = 2 powi ?e / 2 powi ?p"
    unfolding p by (simp add: power_int_diff)
  also have "\<dots> \<le> ?y" using lo by (simp add: divide_right_mono)
  finally have "rat_of_int (2 ^ 52) \<le> ?y" by simp
  then have "2 ^ 52 \<le> \<lfloor>?y\<rfloor>" by (simp only: le_floor_iff)
  with roundHalfEven_ge_floor [of ?y] have "2 ^ 52 \<le> roundHalfEven ?y" by linarith
  then have "rat_of_int (2 ^ 52) \<le> of_int (roundHalfEven ?y)" by (simp only: of_int_le_iff)
  then have "rat_of_int (2 ^ 52) * 2 powi ?p \<le> of_int (roundHalfEven ?y) * 2 powi ?p"
    by (intro mult_right_mono) simp_all
  moreover have "rat_of_int (2 ^ 52) * 2 powi ?p = 2 powi ?e"
  proof -
    have "rat_of_int (2 ^ 52) = 2 powi 52" by simp
    moreover have "(2::rat) powi 52 * 2 powi ?p = 2 powi (52 + ?p)"
      by (rule power_int_add [symmetric]) simp
    ultimately have "rat_of_int (2 ^ 52) * 2 powi ?p = 2 powi (52 + ?p)" by (simp only:)
    then show ?thesis unfolding p by simp
  qed
  moreover have "(2::rat) powi 1024 \<le> 2 powi ?e"
    using e by (intro power_int_increasing) simp_all
  ultimately have "(2::rat) powi 1024 \<le> rat_of_int (roundHalfEven ?y) * 2 powi ?p" by linarith
  with q show ?thesis by (simp add: toNumber_def Let_def)
qed

lemma toNumber_underflow:
  assumes "\<bar>q\<bar> < 2 powi (- 1075)"
  shows "toNumber q = Finite 0"
proof (cases "q = 0")
  case True
  then show ?thesis by (simp add: toNumber_def)
next
  case False
  let ?a = "\<bar>q\<bar>"
  let ?e = "floorLog2 ?a"
  let ?y = "?a / 2 powi (- 1074)"
  from False have pos: "0 < ?a" by simp
  from floorLog2_bounds [OF pos] have lo: "2 powi ?e \<le> ?a" by simp
  with assms have "(2::rat) powi ?e < 2 powi (- 1075)" by linarith
  then have "?e < - 1075"
    by (metis linorder_not_less power_int_increasing one_le_numeral)
  then have p: "max ?e (- 1022) - 52 = - 1074" by simp
  have "?y < 2 powi (- 1075) / 2 powi (- 1074)"
    using assms by (simp add: divide_strict_right_mono)
  also have "\<dots> = 2 powi (- 1075 - (- 1074))"
    by (rule power_int_diff [symmetric]) simp
  finally have y: "?y < 1 / 2" by simp
  have y0: "0 \<le> ?y" by simp
  from y y0 have fl: "\<lfloor>?y\<rfloor> = 0" by (simp add: floor_eq_iff)
  with y have r0: "roundHalfEven ?y = 0" by (simp add: roundHalfEven_def Let_def)
  have "toNumber q =
          (if 2 powi 1024 \<le> rat_of_int (roundHalfEven ?y) * 2 powi (- 1074)
           then (if q < 0 then NegInfinity else PosInfinity)
           else Finite (if q < 0 then - (rat_of_int (roundHalfEven ?y) * 2 powi (- 1074))
                        else rat_of_int (roundHalfEven ?y) * 2 powi (- 1074)))"
    using False by (simp only: toNumber_def Let_def p if_False)
  also have "\<dots> = Finite 0"
    unfolding r0 by simp
  finally show ?thesis .
qed

text \<open>The double nearest to \<open>1234.56\<close> is \<open>5429652300748554 / 2^42\<close>.\<close>

lemma toNumber_1234_56: "toNumber 1234.56 = Finite (5429652300748554 / 2 ^ 42)"
proof -
  have "floorLog2 \<bar>1234.56\<bar> = 10"
    by (rule floorLog2_eqI) simp_all
  then show ?thesis
    by (simp add: toNumber_def roundHalfEven_def Let_def floor_rat_numeral)
qed

section \<open>Properties of the ledger extractor\<close>

subsection \<open>Substrings\<close>

lemma startsWith_append: "startsWith s (p @ q) \<Longrightarrow> startsWith s p"
  by (induction s p rule: startsWith.induct) simp_all

lemma js_includes_append: "js_includes s (p @ q) \<Longrightarrow> js_includes s p"
proof (induction s)
  case Nil
  then show ?case by simp
next
  case (Cons c cs)
  then show ?case using startsWith_append [of "c # cs" p q] by auto
qed

lemma chavenfe_includes_chave: "js_includes h ''chavenfe'' \<Longrightarrow> js_includes h ''chave''"
  using js_includes_append [of h "''chave''" "''nfe''"] by simp

lemma isChaveHeader_iff: "isChaveHeader h \<longleftrightarrow> js_includes h ''chave''"
  using chavenfe_includes_chave [of h] by (auto simp add: isChaveHeader_def)

subsection \<open>Column lookup\<close>

lemma findIndex_from_no_match:
  "\<forall>h. Some h \<in> set hs \<longrightarrow> \<not> p h \<Longrightarrow>
   findIndex_from i p hs = (if None \<in> set hs then Inl TypeError else Inr None)"
proof (induction hs arbitrary: i)
  case Nil
  show ?case by simp
next
  case (Cons c hs)
  show ?case
  proof (cases c)
    case None
    then show ?thesis by simp
  next
    case (Some h)
    with Cons.prems have "\<not> p h" by simp
    moreover from Cons.prems have "\<forall>h. Some h \<in> set hs \<longrightarrow> \<not> p h" by simp
    ultimately show ?thesis using Some Cons.IH by simp
  qed
qed

lemma findIndex_from_no_hole:
  "None \<notin> set hs \<Longrightarrow> \<exists>r. findIndex_from i p hs = Inr r"
proof (induction hs arbitrary: i)
  case Nil
  show ?case by simp
next
  case (Cons c hs)
  then show ?case by (cases c) simp_all
qed

subsection \<open>Rows of the ledger\<close>

lemma accountingRow_None_iff:
  "accountingRow ic inu iv idt r = None \<longleftrightarrow> r = [] \<or> row_at r ic = None \<or> row_at r ic = Some ''''"
  by (auto simp add: accountingRow_def Let_def split: option.splits)

lemma accountingRow_Some:
  assumes "accountingRow ic inu iv idt r = Some record"
  shows "acc_sourceRow record = r \<and> acc_chave record = normalizeKey (row_at r ic)
         \<and> acc_id record = acc_chave record \<and> acc_valor record = parseValor iv r"
  using assms by (auto simp add: accountingRow_def Let_def split: option.splits if_splits)

lemma accountingRows_set:
  "record \<in> set (accountingRows ic inu iv idt body) \<longleftrightarrow>
     (\<exists>r \<in> set body. accountingRow ic inu iv idt r = Some record)"
  by (induction body) (auto split: option.splits)

lemma accountingRows_sourceRows:
  "map acc_sourceRow (accountingRows ic inu iv idt body) =
     filter (\<lambda>r. accountingRow ic inu iv idt r \<noteq> None) body"
proof (induction body)
  case Nil
  show ?case by simp
next
  case (Cons r body)
  show ?case
  proof (cases "accountingRow ic inu iv idt r")
    case None
    then show ?thesis using Cons.IH by simp
  next
    case (Some rec)
    with accountingRow_Some [OF Some] show ?thesis using Cons.IH by simp
  qed
qed

lemma parseAccountingFile_Inr:
  assumes "parseAccountingFile jsonData = Inr records"
  shows "\<exists>header body ic inu iv idt.
           jsonData = header # body
           \<and> findIndex isChaveHeader (map (map_option (\<lambda>h. normalizeHeader (Some h))) header) = Inr (Some ic)
           \<and> findIndex isNumeroHeader (map (map_option (\<lambda>h. normalizeHeader (Some h))) header) = Inr inu
           \<and> findIndex isValorHeader (map (map_option (\<lambda>h. normalizeHeader (Some h))) header) = Inr iv
           \<and> findIndex isDataHeader (map (map_option (\<lambda>h. normalizeHeader (Some h))) header) = Inr idt
           \<and> records = accountingRows ic inu iv idt body"
  using assms
  by (auto simp add: parseAccountingFile_def Let_def split: list.splits sum.splits option.splits)

text \<open>
  Claim C7. When no header cell of row zero contains \<open>chave\<close> after normalisation (and
  hence none contains \<open>chavenfe\<close>), \<open>parseAccountingFile\<close> ends with an error and returns
  no record list, whatever the data rows are: the \<open>Error\<close> for the missing key column, or
  the \<open>TypeError\<close> that the column search throws first when the header row has an absent
  cell.
\<close>

theorem no_chave_header_fails:
  assumes "\<forall>c \<in> set header. \<forall>t. c = Some t \<longrightarrow> \<not> js_includes (normalizeHeader (Some t)) ''chave''"
  shows "(\<forall>c \<in> set header. \<forall>t. c = Some t \<longrightarrow> \<not> js_includes (normalizeHeader (Some t)) ''chavenfe'')
         \<and> parseAccountingFile (header # body)
             = (if None \<in> set header then Inl TypeError else Inl MissingKeyColumn)
         \<and> (\<forall>records. parseAccountingFile (header # body) \<noteq> Inr records)"
proof -
  let ?headers = "map (map_option (\<lambda>h. normalizeHeader (Some h))) header"
  have nfe: "\<forall>c \<in> set header. \<forall>t. c = Some t \<longrightarrow> \<not> js_includes (normalizeHeader (Some t)) ''chavenfe''"
    using assms chavenfe_includes_chave by blast
  have "\<not> isChaveHeader h" if "Some h \<in> set ?headers" for h
  proof -
    from that obtain c where c: "c \<in> set header"
      and hc: "Some h = map_option (\<lambda>h. normalizeHeader (Some h)) c"
      by auto
    from hc obtain t where "c = Some t" and "h = normalizeHeader (Some t)"
      by (cases c) simp_all
    with assms c show ?thesis by (simp add: isChaveHeader_iff)
  qed
  then have "\<forall>h. Some h \<in> set ?headers \<longrightarrow> \<not> isChaveHeader h" by blast
  then have chave: "findIndex isChaveHeader ?headers
                    = (if None \<in> set ?headers then Inl TypeError else Inr None)"
    unfolding findIndex_def by (rule findIndex_from_no_match)
  have hole: "None \<in> set ?headers \<longleftrightarrow> None \<in> set header"
    by (auto simp add: image_iff)
  have result: "parseAccountingFile (header # body)
             = (if None \<in> set header then Inl TypeError else Inl MissingKeyColumn)"
  proof (cases "None \<in> set header")
    case True
    with chave hole show ?thesis by (simp add: parseAccountingFile_def Let_def)
  next
    case False
    with hole have nh: "None \<notin> set ?headers" by simp
    from findIndex_from_no_hole [OF nh] obtain r1 r2 r3 where
      "findIndex isNumeroHeader ?headers = Inr r1"
      "findIndex isValorHeader ?headers = Inr r2"
      "findIndex isDataHeader ?headers = Inr r3"
      unfolding findIndex_def by metis
    with chave nh False show ?thesis by (simp add: parseAccountingFile_def Let_def)
  qed
  then have "\<forall>records. parseAccountingFile (header # body) \<noteq> Inr records" by simp
  with nfe result show ?thesis by blast
qed

theorem no_chave_header_fails_witness:
  "\<not> js_includes (normalizeHeader (Some ''Numero'')) ''chave''
   \<and> \<not> js_includes (normalizeHeader (Some ''Valor Cont'')) ''chave''
   \<and> parseAccountingFile [[Some ''Numero'', Some ''Valor Cont''], [Some exKey1, Some ''1,00'']]
       = Inl MissingKeyColumn
   \<and> parseAccountingFile [[Some ''Valor Cont'', None], [Some exKey1, Some ''1,00'']]
       = Inl TypeError"
proof -
  have a: "\<forall>c \<in> set [Some ''Numero'', Some ''Valor Cont''].
            \<forall>t. c = Some t \<longrightarrow> \<not> js_includes (normalizeHeader (Some t)) ''chave''"
    by (simp add: header_eval)
  have b: "\<forall>c \<in> set [Some ''Valor Cont'', None].
            \<forall>t. c = Some t \<longrightarrow> \<not> js_includes (normalizeHeader (Some t)) ''chave''"
    by (simp add: header_eval)
  show ?thesis
    using no_chave_header_fails [OF a, of "[[Some exKey1, Some ''1,00'']]"]
          no_chave_header_fails [OF b, of "[[Some exKey1, Some ''1,00'']]"] a
    by simp
qed

text \<open>
  Claim C3, as amended. \<open>parseAccountingFile\<close> skips a data row exactly when the row is
  empty or its key cell is absent or the empty string. Every other row gives one record,
  in row order, whose key is the digits of the key cell; that key is the empty string
  when the cell has no digit.
\<close>

theorem ledger_row_skipped_iff_raw_key_empty:
  assumes "parseAccountingFile (header # body) = Inr records"
  shows "\<exists>idxChave.
           findIndex isChaveHeader (map (map_option (\<lambda>h. normalizeHeader (Some h))) header)
             = Inr (Some idxChave)
           \<and> map acc_sourceRow records
               = filter (\<lambda>r. r \<noteq> [] \<and> row_at r idxChave \<noteq> None \<and> row_at r idxChave \<noteq> Some '''') body
           \<and> (\<forall>rec \<in> set records.
                 \<exists>rawKey. rawKey \<noteq> '''' \<and> row_at (acc_sourceRow rec) idxChave = Some rawKey
                          \<and> acc_chave rec = filter (\<lambda>c. c \<in> set ''0123456789'') rawKey)"
proof -
  from parseAccountingFile_Inr [OF assms] obtain ic inu iv idt where
    ic: "findIndex isChaveHeader (map (map_option (\<lambda>h. normalizeHeader (Some h))) header)
           = Inr (Some ic)"
    and recs: "records = accountingRows ic inu iv idt body"
    by auto
  have rows: "map acc_sourceRow records
               = filter (\<lambda>r. r \<noteq> [] \<and> row_at r ic \<noteq> None \<and> row_at r ic \<noteq> Some '''') body"
    unfolding recs accountingRows_sourceRows by (simp add: accountingRow_None_iff)
  have keys: "\<exists>rawKey. rawKey \<noteq> '''' \<and> row_at (acc_sourceRow rec) ic = Some rawKey
                          \<and> acc_chave rec = filter (\<lambda>c. c \<in> set ''0123456789'') rawKey"
    if "rec \<in> set records" for rec
  proof -
    from that recs obtain r where r: "accountingRow ic inu iv idt r = Some rec"
      by (auto simp add: accountingRows_set)
    then have "accountingRow ic inu iv idt r \<noteq> None" by simp
    then obtain rawKey where raw: "row_at r ic = Some rawKey" "rawKey \<noteq> ''''"
      unfolding accountingRow_None_iff by (cases "row_at r ic") auto
    from accountingRow_Some [OF r] raw
    have "acc_sourceRow rec = r" "acc_chave rec = filter isDigit rawKey"
      by (simp_all add: normalizeKey_def)
    moreover have "isDigit = (\<lambda>c. c \<in> set ''0123456789'')"
      by (rule ext) (simp add: isDigit_def)
    ultimately show ?thesis using raw by auto
  qed
  from ic rows keys show ?thesis by blast
qed

theorem ledger_row_skipped_iff_raw_key_empty_witness:
  "map_sum id (map acc_chave)
     (parseAccountingFile
        [[Some ''Chave NFe'', Some ''Valor''],
         [Some ''3524-0312'', Some ''1,00''], [], [Some '''', Some ''2,00''], [None, Some ''3,00''],
         [Some ''S/N'', Some ''4,00'']])
   = Inr [''35240312'', '''']"
proof -
  have r: "parseAccountingFile
        [[Some ''Chave NFe'', Some ''Valor''],
         [Some ''3524-0312'', Some ''1,00''], [], [Some '''', Some ''2,00''], [None, Some ''3,00''],
         [Some ''S/N'', Some ''4,00'']]
     = Inr (accountingRows 0 None (Some 1) None
         [[Some ''3524-0312'', Some ''1,00''], [], [Some '''', Some ''2,00''], [None, Some ''3,00''],
         [Some ''S/N'', Some ''4,00'']])"
    by (simp add: parseAccountingFile_def findIndex_def isChaveHeader_def isNumeroHeader_def
          isValorHeader_def isDataHeader_def header_eval)
  have recs: "map acc_chave (accountingRows 0 None (Some 1) None
         [[Some ''3524-0312'', Some ''1,00''], [], [Some '''', Some ''2,00''], [None, Some ''3,00''],
         [Some ''S/N'', Some ''4,00'']]) = [''35240312'', '''']"
    by (simp add: accountingRow_def row_at_def key_eval Let_def)
  show ?thesis
    using ledger_row_skipped_iff_raw_key_empty [OF r] r recs by simp
qed

theorem empty_key_record_counterexample:
  "parseAccountingFile [[Some ''Chave''], [Some ''S/N'']]
   = Inr [\<lparr> acc_id = '''', acc_numero = Some '''', acc_dataEmissao = '''', acc_valor = Finite 0,
            acc_chave = '''', acc_sourceRow = [Some ''S/N''] \<rparr>]"
  by (simp add: ledger_eval header_eval key_eval Let_def)

lemma parseFloat_zero: "parseFloat ''0'' = Finite 0"
  by (simp add: float_eval toNumber_def)

lemma parseFloat_not_numeric:
  assumes "s \<noteq> []" and "\<not> isWhiteSpace (hd s)" and "hd s \<notin> set ''0123456789+-.I''"
  shows "parseFloat s = NaN"
proof -
  from assms(1) obtain c cs where s: "s = c # cs" by (cases s) auto
  with assms have c: "\<not> isWhiteSpace c" "\<not> isDigit c" "c \<noteq> CHR ''+''" "c \<noteq> CHR ''-''"
    "c \<noteq> CHR ''.''" "c \<noteq> CHR ''I''"
    by (auto simp add: isDigit_def)
  then show ?thesis
    unfolding s by (simp add: parseFloat_def trimStart_def parseUnsigned_def)
qed

text \<open>
  Claim C4, as amended. The value of every record of \<open>parseAccountingFile\<close> is \<open>0\<close> when no
  value column was found, when the value cell of the row is absent, and when nothing is
  left of the cell after removing the first \<open>R$\<close>, every period, and turning the first
  comma into a period; in every other case it is what \<open>parseFloat\<close> returns for the text
  that is left: for the cell \<open>R$ 1.234,56\<close> the double nearest to \<open>1234.56\<close>.
\<close>

theorem ledger_valor_parse:
  assumes "parseAccountingFile (header # body) = Inr records" and "rec \<in> set records"
  shows "\<exists>idxValor.
           findIndex isValorHeader (map (map_option (\<lambda>h. normalizeHeader (Some h))) header)
             = Inr idxValor
           \<and> acc_valor rec =
               (case idxValor of
                  None \<Rightarrow> Finite 0
                | Some i \<Rightarrow>
                    (case row_at (acc_sourceRow rec) i of
                       None \<Rightarrow> Finite 0
                     | Some v \<Rightarrow>
                         if stripCurrency v = '''' then Finite 0
                         else parseFloat (stripCurrency v)))"
proof -
  from parseAccountingFile_Inr [OF assms(1)] obtain ic inu iv idt where
    iv: "findIndex isValorHeader (map (map_option (\<lambda>h. normalizeHeader (Some h))) header) = Inr iv"
    and recs: "records = accountingRows ic inu iv idt body"
    by auto
  from assms(2) recs obtain r where r: "accountingRow ic inu iv idt r = Some rec"
    by (auto simp add: accountingRows_set)
  from accountingRow_Some [OF r]
  have "acc_valor rec = parseValor iv (acc_sourceRow rec)" by simp
  then have "acc_valor rec =
               (case iv of
                  None \<Rightarrow> Finite 0
                | Some i \<Rightarrow>
                    (case row_at (acc_sourceRow rec) i of
                       None \<Rightarrow> Finite 0
                     | Some v \<Rightarrow>
                         if stripCurrency v = '''' then Finite 0
                         else parseFloat (stripCurrency v)))"
    by (simp add: parseValor_def parseFloat_zero split: option.splits)
  with iv show ?thesis by blast
qed

theorem ledger_valor_parse_witness:
  "stripCurrency ''R$ 1.234,56'' = '' 1234.56''
   \<and> parseFloat '' 1234.56'' = toNumber 1234.56
   \<and> toNumber 1234.56 = Finite (5429652300748554 / 2 ^ 42)
   \<and> parseFloat ''1e400'' = PosInfinity
   \<and> parseFloat ''-1e-400'' = Finite 0
   \<and> map_sum id (map acc_valor)
       (parseAccountingFile
          [[Some ''Chave'', Some ''Valor''],
           [Some ''3524-0312'', Some ''R$ 1.234,56''], [Some ''3524-0313'', Some ''R$''],
           [Some ''3524-0313''], [Some ''3524-0314'', Some ''1e400'']])
     = Inr [toNumber 1234.56, Finite 0, Finite 0, PosInfinity]"
proof -
  have r: "parseAccountingFile
          [[Some ''Chave'', Some ''Valor''],
           [Some ''3524-0312'', Some ''R$ 1.234,56''], [Some ''3524-0313'', Some ''R$''],
           [Some ''3524-0313''], [Some ''3524-0314'', Some ''1e400'']]
     = Inr (accountingRows 0 None (Some 1) None
          [[Some ''3524-0312'', Some ''R$ 1.234,56''], [Some ''3524-0313'', Some ''R$''],
           [Some ''3524-0313''], [Some ''3524-0314'', Some ''1e400'']])"
    by (simp add: parseAccountingFile_def findIndex_def isChaveHeader_def isNumeroHeader_def
          isValorHeader_def isDataHeader_def header_eval)
  have s: "stripCurrency ''R$ 1.234,56'' = '' 1234.56''" "stripCurrency ''R$'' = ''''"
    "stripCurrency ''1e400'' = ''1e400''"
    by (simp_all add: stripCurrency_def)
  have big: "toNumber (10 ^ 400) = PosInfinity"
    using toNumber_overflow [of "10 ^ 400"] by simp
  have small: "toNumber (- (1 / 10 ^ 400)) = Finite 0"
    using toNumber_underflow [of "- (1 / 10 ^ 400)"] by simp
  have f: "parseFloat '' 1234.56'' = toNumber 1234.56" "parseFloat ''0'' = Finite 0"
    by (simp_all add: float_eval toNumber_def [of 0])
  have g: "parseFloat ''1e400'' = PosInfinity"
    using big by (simp add: float_eval)
  have h: "parseFloat ''-1e-400'' = Finite 0"
    using small by (simp add: float_eval)
  have recs: "map acc_valor (accountingRows 0 None (Some 1) None
          [[Some ''3524-0312'', Some ''R$ 1.234,56''], [Some ''3524-0313'', Some ''R$''],
           [Some ''3524-0313''], [Some ''3524-0314'', Some ''1e400'']])
       = [toNumber 1234.56, Finite 0, Finite 0, PosInfinity]"
    by (simp add: accountingRow_def row_at_def parseValor_def s f g Let_def)
  have mem: "hd (accountingRows 0 None (Some 1) None
          [[Some ''3524-0312'', Some ''R$ 1.234,56''], [Some ''3524-0313'', Some ''R$''],
           [Some ''3524-0313''], [Some ''3524-0314'', Some ''1e400'']])
       \<in> set (accountingRows 0 None (Some 1) None
          [[Some ''3524-0312'', Some ''R$ 1.234,56''], [Some ''3524-0313'', Some ''R$''],
           [Some ''3524-0313''], [Some ''3524-0314'', Some ''1e400'']])"
    by (simp add: accountingRow_def row_at_def Let_def)
  show ?thesis
    using ledger_valor_parse [OF r mem] r s f g h recs toNumber_1234_56 by simp
qed

theorem unparsable_valor_counterexample:
  "map_sum id (map acc_valor)
     (parseAccountingFile [[Some ''Chave'', Some ''Valor''], [Some ''3524-0312'', Some ''isento'']])
   = Inr [NaN]"
  by (simp add: ledger_eval header_eval float_eval Let_def)

section \<open>Properties of the authority extractor\<close>

subsection \<open>Rows of the authority table\<close>

lemma sefazRow_Some:
  assumes "sefazRow headerMap cells = Some rec"
  shows "sefaz_chave rec = normalizeKey (Some (getVal headerMap cells ''chave''))
         \<and> sefaz_chave rec \<noteq> '''' \<and> 20 < length (sefaz_chave rec)
         \<and> sefaz_id rec = sefaz_chave rec \<and> sefaz_sourceRow rec = map innerText cells"
  using assms by (auto simp add: sefazRow_def Let_def split: if_splits)

lemma sefazRow_gate:
  assumes "normalizeKey (Some (getVal headerMap cells ''chave'')) = ''''
           \<or> length (normalizeKey (Some (getVal headerMap cells ''chave''))) \<le> 20"
  shows "sefazRow headerMap cells = None"
  using assms by (auto simp add: sefazRow_def Let_def)

lemma sefazRows_set:
  "rec \<in> set (sefazRows headerMap rows) \<longleftrightarrow>
     (\<exists>cells \<in> set rows. sefazRow headerMap cells = Some rec)"
  by (induction rows) (auto split: option.splits)

lemma sefazRows_length:
  "length (sefazRows headerMap rows) = length (filter (\<lambda>cells. sefazRow headerMap cells \<noteq> None) rows)"
  by (induction rows) (auto split: option.splits)

lemma parseSefazHtml_Inr:
  assumes "parseSefazHtml tables = Inr records"
  shows "\<exists>targetTable headerMap.
           findTargetTable tables = Some (targetTable, headerMap)
           \<and> records = sefazRows headerMap targetTable"
  using assms by (auto simp add: parseSefazHtml_def split: option.splits)

lemma findTargetTable_member:
  "findTargetTable tables = Some (targetTable, headerMap) \<Longrightarrow> targetTable \<in> set tables"
  by (induction tables) (auto split: option.splits)

text \<open>
  Claim C6. \<open>parseSefazHtml\<close> emits a record for a row of the target table only if the
  digits-only normalisation of the row's key cell is non-empty and longer than 20
  characters; a row that fails this test gives no record.
\<close>

theorem sefaz_key_gate:
  assumes "parseSefazHtml tables = Inr records"
  shows "\<exists>targetTable headerMap.
           findTargetTable tables = Some (targetTable, headerMap)
           \<and> targetTable \<in> set tables
           \<and> (\<forall>rec \<in> set records.
                 sefaz_chave rec \<noteq> '''' \<and> 20 < length (sefaz_chave rec)
                 \<and> (\<exists>cells \<in> set targetTable.
                       sefazRow headerMap cells = Some rec
                       \<and> sefaz_chave rec = normalizeKey (Some (getVal headerMap cells ''chave''))))
           \<and> (\<forall>cells \<in> set targetTable.
                 normalizeKey (Some (getVal headerMap cells ''chave'')) = ''''
                 \<or> length (normalizeKey (Some (getVal headerMap cells ''chave''))) \<le> 20
                 \<longrightarrow> sefazRow headerMap cells = None)
           \<and> length records
               = length (filter (\<lambda>cells. sefazRow headerMap cells \<noteq> None) targetTable)"
proof -
  from parseSefazHtml_Inr [OF assms] obtain targetTable headerMap where
    t: "findTargetTable tables = Some (targetTable, headerMap)"
    and recs: "records = sefazRows headerMap targetTable"
    by blast
  have mem: "targetTable \<in> set tables"
    using t by (rule findTargetTable_member)
  have a: "sefaz_chave rec \<noteq> '''' \<and> 20 < length (sefaz_chave rec)
           \<and> (\<exists>cells \<in> set targetTable.
                 sefazRow headerMap cells = Some rec
                 \<and> sefaz_chave rec = normalizeKey (Some (getVal headerMap cells ''chave'')))"
    if "rec \<in> set records" for rec
  proof -
    from that recs obtain cells where c: "cells \<in> set targetTable"
      and r: "sefazRow headerMap cells = Some rec"
      by (auto simp add: sefazRows_set)
    from sefazRow_Some [OF r] c r show ?thesis by blast
  qed
  have b: "\<forall>cells \<in> set targetTable.
                 normalizeKey (Some (getVal headerMap cells ''chave'')) = ''''
                 \<or> length (normalizeKey (Some (getVal headerMap cells ''chave''))) \<le> 20
                 \<longrightarrow> sefazRow headerMap cells = None"
    using sefazRow_gate by blast
  have c: "length records
               = length (filter (\<lambda>cells. sefazRow headerMap cells \<noteq> None) targetTable)"
    unfolding recs by (rule sefazRows_length)
  from t mem a b c show ?thesis by blast
qed

theorem sefaz_key_gate_witness:
  "map_sum id (map sefaz_chave) (parseSefazHtml [[[exCell ''menu'']], exTable]) = Inr [exKey1]
   \<and> length exKey1 = 44
   \<and> length (normalizeKey (Some ''3524 0312 3456 7890 1234'')) = 20"
proof -
  have h0: "normalizeHeader (Some ''menu'') = ''menu''"
    "normalizeHeader (Some ''Consulta de NF-e'') = ''consulta_de_nf_e''"
    "normalizeHeader (Some '''') = ''''"
    "normalizeHeader (Some ''Chave de Acesso'') = ''chave_de_acesso''"
    "normalizeHeader (Some (''Situa'' @ [CHR 0xE7, CHR 0xE3] @ ''o'')) = ''situacao''"
    "normalizeHeader (Some ''Numero'') = ''numero''"
    by (simp_all add: header_eval)
  have t: "findTargetTable [[[exCell ''menu'']], exTable]
           = Some (exTable, [''chave'' \<mapsto> 0, ''situacao'' \<mapsto> Suc 0, ''numero'' \<mapsto> Suc (Suc 0)])"
    using h0 by (simp add: exTable_def exCell_def hasAll_def requiredHeaders_def)
  have p: "parseSefazHtml [[[exCell ''menu'']], exTable]
           = Inr (sefazRows [''chave'' \<mapsto> 0, ''situacao'' \<mapsto> Suc 0, ''numero'' \<mapsto> Suc (Suc 0)] exTable)"
    unfolding parseSefazHtml_def t by simp
  have recs: "map sefaz_chave (sefazRows [''chave'' \<mapsto> 0, ''situacao'' \<mapsto> Suc 0, ''numero'' \<mapsto> Suc (Suc 0)] exTable)
              = [exKey1]"
    by (simp add: exTable_def exCell_def exKey1_def sefaz_eval lower_defs trim_def isWhiteSpace_def
          key_eval Let_def)
  show ?thesis
    using sefaz_key_gate [OF p] p recs
    by (simp add: exKey1_def normalizeKey_def isDigit_def)
qed

end
